theory Spec2Isabelle
  imports Complex_Main "HOL-Library.Char_ord" "HOL-Library.List_Lexorder"
    "HOL-Library.AList" "HOL-Library.Sublist" "HOL-Library.Multiset"
begin

section \<open>Data model\<close>

text \<open>
  The server of the stock dashboard comes in two revisions: \<^verbatim>\<open>server.js\<close> and an earlier
  revision that still has the news and event routes.  Lines 1 to 404 (configuration, quote
  adapter, batch collector, monthly cache, merge, \<^verbatim>\<open>getMonthlyData\<close>, the daily route) are
  the same text in both; the news adapter, the event detector and the event route exist only in
  the earlier revision, and are modelled from there.

  Conventions of the embedding.
  \<^item> A finite JavaScript number is the \<^typ>\<open>real\<close> it denotes; a \<open>jsnum\<close> is a number
    that may also be an infinity or NaN.  The percentages of the event detector are computed
    as the platform computes them, every operation rounded to the nearest binary64 value
    (section \<open>Arithmetic of doubles\<close>).  Time values, timestamps and day counts are integers
    far below \<open>2^53\<close> and are computed exactly.  The sign of zero is outside the model: a
    zero divisor is \<open>+0\<close>.
  \<^item> \<open>null\<close> and \<open>undefined\<close> are \<open>None\<close>.
  \<^item> A plain object and a \<open>Map\<close> are association lists in insertion order with distinct
    keys; \<open>obj[k] = v\<close> and \<open>Map.set\<close> are \<^const>\<open>AList.update\<close> (an existing key keeps
    its position, a new key goes to the end), \<open>obj[k]\<close> and \<open>Map.get\<close> are \<^const>\<open>map_of\<close>.
    Property names inherited from \<open>Object.prototype\<close> are not instrument ids, and no key
    is a canonical array index (JavaScript enumerates those first): the keys are instrument
    ids, ISO dates and period keys.
  \<^item> Strings are byte lists; \<open><\<close> on strings is the lexicographic order of the code units.
    \<open>localeCompare\<close> is modelled by the same order: the two agree on the fixed-width ISO
    dates the records carry.  \<open>Array.prototype.sort\<close> is stable, as \<^const>\<open>sort_key\<close> is.
  \<^item> Built-ins of the platform whose result depends on the engine or the time zone
    (\<open>Date\<close>, \<open>JSON.parse\<close>, \<open>Number\<close>, \<open>parseInt\<close>) and the network are fields of an
    environment record; every theorem holds for every environment.
\<close>

datatype jsnum = Fin real | PosInf | NegInf | NaN

datatype json = JNull | JBool bool | JNum real | JStr string
  | JArr "json list" | JObj "(string \<times> json) list"

record drecord =
  date :: string
  close :: "real option"
  opn :: "real option"
  high :: "real option"
  low :: "real option"
  volume :: "real option"

type_synonym series = "drecord list"

type_synonym 'v obj = "(string \<times> 'v) list"

record item =
  item_id :: string
  item_name :: string
  item_symbol :: string
  item_unit :: string
  newsSymbol :: "string option"

record eitem = item +
  overridden :: bool

record override =
  o_symbol :: string
  o_name :: string

datatype evtype = Rise | Fall

record candidate =
  c_date :: string
  c_item :: string
  c_itemObj :: eitem
  c_change :: jsnum
  c_type :: evtype

record newsItem =
  n_date :: string
  n_headline :: string

text \<open>
  The eleven texts \<open>getSellTimingWarning\<close> can return, in the order of the source: the dash
  of the early returns, the seven advisories of a fall (line 669 to 675) and the three of a
  rise (line 679 to 681).
\<close>

datatype advisory = NoAdvisory
  | ImmediateSell | SellTrend | StopLoss | ConsecutiveFall | SharpFall | MonthlyFall | Volatility
  | PartialProfit | NearHigh | HoldOn

record outEvent =
  e_date :: string
  e_item :: string
  e_change :: jsnum
  e_type :: evtype
  newsHeadline :: "string option"
  sellWarning :: advisory

section \<open>Instrument configuration\<close>

definition utf8 :: "nat list \<Rightarrow> string" where
  "utf8 bs = map char_of bs"

text \<open>\<open>config/symbols.js\<close>; the display names are Korean and given by their UTF-8 bytes.\<close>

definition items :: "item list" where
  "items = [
    \<lparr>item_id = ''kospi'', item_name = utf8 [236, 189, 148, 236, 138, 164, 237, 148, 188, 236, 167, 128, 236, 136, 152],
     item_symbol = ''^KS11'', item_unit = ''pt'', newsSymbol = None\<rparr>,
    \<lparr>item_id = ''kospi200'', item_name = utf8 [236, 189, 148, 236, 138, 164, 237, 148, 188, 50, 48, 48, 236, 167, 128, 236, 136, 152],
     item_symbol = ''^KS200'', item_unit = ''pt'', newsSymbol = None\<rparr>,
    \<lparr>item_id = ''sp500'', item_name = utf8 [83, 38, 80, 53, 48, 48, 236, 167, 128, 236, 136, 152],
     item_symbol = ''^GSPC'', item_unit = ''pt'', newsSymbol = Some ''SPY''\<rparr>,
    \<lparr>item_id = ''sox'', item_name = utf8 [237, 149, 132, 235, 157, 188, 235, 141, 184, 237, 148, 188, 236, 149, 132, 235, 176, 152, 235, 143, 132, 236, 178, 180, 236, 167, 128, 236, 136, 152],
     item_symbol = ''^SOX'', item_unit = ''pt'', newsSymbol = Some ''SOXX''\<rparr>,
    \<lparr>item_id = ''usdkrw'', item_name = utf8 [235, 175, 184, 234, 181, 173, 85, 83, 68, 40, 236, 155, 144, 41],
     item_symbol = ''KRW=X'', item_unit = utf8 [236, 155, 144], newsSymbol = None\<rparr>,
    \<lparr>item_id = ''gold'', item_name = utf8 [234, 181, 173, 236, 160, 156, 234, 184, 136, 234, 176, 146],
     item_symbol = ''GC=F'', item_unit = ''USD'', newsSymbol = Some ''GLD''\<rparr>,
    \<lparr>item_id = ''brent'', item_name = utf8 [235, 184, 140, 235, 158, 156, 237, 138, 184, 236, 156, 160, 234, 176, 128, 234, 178, 169],
     item_symbol = ''BZ=F'', item_unit = ''USD'', newsSymbol = None\<rparr>,
    \<lparr>item_id = ''treasury10'', item_name = utf8 [235, 175, 184, 234, 181, 173, 49, 48, 235, 133, 132, 234, 181, 173, 236, 177, 132, 234, 176, 128, 234, 178, 169],
     item_symbol = ''^TNX'', item_unit = ''%'', newsSymbol = None\<rparr>,
    \<lparr>item_id = ''apple'', item_name = utf8 [236, 149, 160, 237, 148, 140],
     item_symbol = ''AAPL'', item_unit = ''USD'', newsSymbol = Some ''AAPL''\<rparr>,
    \<lparr>item_id = ''microsoft'', item_name = utf8 [235, 167, 136, 236, 157, 180, 237, 129, 172, 235, 161, 156, 236, 134, 140, 237, 148, 132, 237, 138, 184],
     item_symbol = ''MSFT'', item_unit = ''USD'', newsSymbol = Some ''MSFT''\<rparr>,
    \<lparr>item_id = ''sap'', item_name = ''SAP'',
     item_symbol = ''SAP'', item_unit = ''EUR'', newsSymbol = Some ''SAP''\<rparr>,
    \<lparr>item_id = ''nvidia'', item_name = utf8 [236, 149, 164, 235, 185, 132, 235, 148, 148, 236, 149, 132],
     item_symbol = ''NVDA'', item_unit = ''USD'', newsSymbol = Some ''NVDA''\<rparr>,
    \<lparr>item_id = ''gaonchips'', item_name = utf8 [234, 176, 128, 236, 152, 168, 236, 185, 169, 236, 138, 164],
     item_symbol = ''399720.KQ'', item_unit = utf8 [236, 155, 144], newsSymbol = None\<rparr>,
    \<lparr>item_id = ''tiger_sp500_h'', item_name = ''TIGER S&P 500(H) ETF'',
     item_symbol = ''448290.KS'', item_unit = utf8 [236, 155, 144], newsSymbol = Some ''SPY''\<rparr>,
    \<lparr>item_id = ''tiger_sp500'', item_name = ''TIGER S&P 500 ETF'',
     item_symbol = ''360750.KS'', item_unit = utf8 [236, 155, 144], newsSymbol = Some ''SPY''\<rparr>,
    \<lparr>item_id = ''tiger_sox'', item_name = utf8 [84, 105, 103, 101, 114, 32, 237, 149, 132, 235, 157, 188, 235, 141, 184, 237, 148, 188, 236, 149, 132, 32, 236, 167, 128, 236, 136, 152],
     item_symbol = ''381180.KS'', item_unit = utf8 [236, 155, 144], newsSymbol = Some ''SOXX''\<rparr>,
    \<lparr>item_id = ''krx_gold'', item_name = utf8 [75, 82, 88, 234, 184, 136, 237, 152, 132, 235, 172, 188, 234, 176, 128, 234, 178, 169],
     item_symbol = ''319640.KS'', item_unit = utf8 [236, 155, 144], newsSymbol = None\<rparr>,
    \<lparr>item_id = ''alphabet'', item_name = utf8 [236, 149, 140, 237, 140, 140, 235, 178, 179, 65, 32, 234, 176, 128, 234, 178, 169],
     item_symbol = ''GOOGL'', item_unit = ''USD'', newsSymbol = Some ''GOOGL''\<rparr>
  ]"

definition mkEffective :: "item \<Rightarrow> string \<Rightarrow> string \<Rightarrow> bool \<Rightarrow> eitem" where
  "mkEffective it smb nm ov =
     \<lparr>item_id = item_id it, item_name = nm, item_symbol = smb, item_unit = item_unit it,
      newsSymbol = newsSymbol it, overridden = ov\<rparr>"

definition getEffectiveItems :: "override obj \<Rightarrow> eitem list" where
  "getEffectiveItems overrides =
     map (\<lambda>it. case map_of overrides (item_id it) of
            None \<Rightarrow> mkEffective it (item_symbol it) (item_name it) False
          | Some ov \<Rightarrow>
              if o_symbol ov \<noteq> []
              then mkEffective it (o_symbol ov) (if o_name ov \<noteq> [] then o_name ov else item_name it) True
              else mkEffective it (item_symbol it) (item_name it) False)
         items"

definition isSymbolAllowed :: "override obj \<Rightarrow> string \<Rightarrow> bool" where
  "isSymbolAllowed overrides smb =
     list_ex (\<lambda>i. item_symbol i = smb) (getEffectiveItems overrides)"

section \<open>Merging monthly data\<close>

definition orEmpty :: "'a list option \<Rightarrow> 'a list" where
  "orEmpty v = (case v of None \<Rightarrow> [] | Some xs \<Rightarrow> xs)"

definition sortByDate :: "series \<Rightarrow> series" where
  "sortByDate xs = sort_key date xs"

text \<open>\<open>xs.forEach(d => byDate.set(d.date, d))\<close>\<close>

definition setAll :: "series \<Rightarrow> (string \<times> drecord) list \<Rightarrow> (string \<times> drecord) list" where
  "setAll xs byDate = fold (\<lambda>d m. AList.update (date d) d m) xs byDate"

text \<open>The body of the first loop of \<open>mergeMonthlyData\<close> for one instrument.\<close>

definition mergeSeries :: "series \<Rightarrow> series \<Rightarrow> series" where
  "mergeSeries e f = sortByDate (map snd (setAll f (setAll e [])))"

text \<open>
  The first loop runs over the keys of \<open>existing\<close>, the second over the keys of \<open>fresh\<close> and
  skips those the first has set.  The second loop sorts the array of \<open>fresh\<close> in place; the
  only caller passes a local object, so that the effect is not visible and not modelled.
\<close>

definition mergeMonthlyData :: "series obj \<Rightarrow> series obj \<Rightarrow> series obj" where
  "mergeMonthlyData existing fresh =
     (let merged = fold (\<lambda>id merged.
             AList.update id (mergeSeries (orEmpty (map_of existing id)) (orEmpty (map_of fresh id))) merged)
           (map fst existing) []
      in fold (\<lambda>id merged.
             if map_of merged id \<noteq> None then merged
             else AList.update id (sortByDate (orEmpty (map_of fresh id))) merged)
           (map fst fresh) merged)"

text \<open>The last record of a series with a given date: the one a \<open>Map\<close> keyed by date keeps.\<close>

definition lastWith :: "series \<Rightarrow> string \<Rightarrow> drecord option" where
  "lastWith xs k = find (\<lambda>d. date d = k) (rev xs)"

definition pick :: "series \<Rightarrow> series \<Rightarrow> string \<Rightarrow> drecord option" where
  "pick e f k = (case lastWith f k of Some d \<Rightarrow> Some d | None \<Rightarrow> lastWith e k)"

section \<open>Arithmetic of doubles\<close>

text \<open>
  The operators \<open>-\<close>, \<open>/\<close> and \<open>*\<close> of the source work on binary64 values: the result
  is the exact result rounded to the nearest value with a significand of 53 bits, to the one
  with an even significand when two are equally near; a result of magnitude \<open>2^1024\<close> or more
  after rounding is an infinity, and below \<open>2^-1022\<close> the spacing stays \<open>2^-1074\<close>.

  \<open>exponent x\<close> is the largest \<open>e\<close> with \<open>2^e \<le> |x|\<close>, kept between \<open>-1022\<close> and \<open>1024\<close>;
  it is found by halving or doubling.
\<close>

definition pow2 :: "int \<Rightarrow> real" where
  "pow2 e = (if e \<ge> 0 then 2 ^ nat e else 1 / 2 ^ nat (- e))"

fun expUp :: "nat \<Rightarrow> real \<Rightarrow> int" where
  "expUp 0 x = 0"
| "expUp (Suc n) x = (if x < 2 then 0 else expUp n (x / 2) + 1)"

fun expDown :: "nat \<Rightarrow> real \<Rightarrow> int" where
  "expDown 0 x = 0"
| "expDown (Suc n) x = (if 1 \<le> x then 0 else expDown n (2 * x) - 1)"

definition exponent :: "real \<Rightarrow> int" where
  "exponent x = (if 1 \<le> \<bar>x\<bar> then expUp 1024 \<bar>x\<bar> else expDown 1022 \<bar>x\<bar>)"

text \<open>The nearest integer, the even one of two that are equally near.\<close>

definition roundEven :: "real \<Rightarrow> int" where
  "roundEven x =
     (let f = \<lfloor>x\<rfloor>; r = x - of_int f
      in if r < 1 / 2 then f else if r > 1 / 2 then f + 1 else if even f then f else f + 1)"

text \<open>The binary64 value of an exact result.\<close>

definition rnd :: "real \<Rightarrow> jsnum" where
  "rnd x =
     (if x = 0 then Fin 0
      else (let u = pow2 (exponent x - 52);
                y = of_int (roundEven (x / u)) * u
            in if \<bar>y\<bar> \<ge> pow2 1024 then (if x > 0 then PosInf else NegInf) else Fin y))"

text \<open>
  \<open>a - b\<close> of two finite numbers, and \<open>x / b\<close> and \<open>x * b\<close> for a finite \<open>b\<close>, as the
  source uses them: the left operand of \<open>/\<close> and \<open>*\<close> is the result of the operation
  before.
\<close>

definition jsSub :: "real \<Rightarrow> real \<Rightarrow> jsnum" where
  "jsSub a b = rnd (a - b)"

fun jsDiv :: "jsnum \<Rightarrow> real \<Rightarrow> jsnum" where
  "jsDiv (Fin a) b =
     (if b = 0 then (if a > 0 then PosInf else if a < 0 then NegInf else NaN) else rnd (a / b))"
| "jsDiv PosInf b = (if b \<ge> 0 then PosInf else NegInf)"
| "jsDiv NegInf b = (if b \<ge> 0 then NegInf else PosInf)"
| "jsDiv NaN b = NaN"

fun jsMul :: "jsnum \<Rightarrow> real \<Rightarrow> jsnum" where
  "jsMul (Fin a) b = rnd (a * b)"
| "jsMul PosInf b = (if b > 0 then PosInf else if b < 0 then NegInf else NaN)"
| "jsMul NegInf b = (if b > 0 then NegInf else if b < 0 then PosInf else NaN)"
| "jsMul NaN b = NaN"

text \<open>\<open>Math.abs\<close> and the comparisons with a finite number; every comparison with NaN is false.\<close>

fun jsAbs :: "jsnum \<Rightarrow> jsnum" where
  "jsAbs (Fin x) = Fin \<bar>x\<bar>"
| "jsAbs PosInf = PosInf"
| "jsAbs NegInf = PosInf"
| "jsAbs NaN = NaN"

fun jsLe :: "jsnum \<Rightarrow> real \<Rightarrow> bool" where
  "jsLe (Fin x) c = (x \<le> c)"
| "jsLe NegInf c = True"
| "jsLe PosInf c = False"
| "jsLe NaN c = False"

fun jsGe :: "jsnum \<Rightarrow> real \<Rightarrow> bool" where
  "jsGe (Fin x) c = (x \<ge> c)"
| "jsGe PosInf c = True"
| "jsGe NegInf c = False"
| "jsGe NaN c = False"

fun jsGt :: "jsnum \<Rightarrow> real \<Rightarrow> bool" where
  "jsGt (Fin x) c = (x > c)"
| "jsGt PosInf c = True"
| "jsGt NegInf c = False"
| "jsGt NaN c = False"

fun jsLt :: "jsnum \<Rightarrow> real \<Rightarrow> bool" where
  "jsLt (Fin x) c = (x < c)"
| "jsLt NegInf c = True"
| "jsLt PosInf c = False"
| "jsLt NaN c = False"

section \<open>Event detection\<close>

text \<open>
  The body of the loop over \<open>i\<close> in the event route: at most one candidate for the adjacent
  pair \<open>(data[i-1], data[i])\<close>.  The field \<open>description\<close> (a display string built with
  \<open>toFixed\<close>) is left out.
\<close>

definition candidateOf :: "eitem \<Rightarrow> drecord \<Rightarrow> drecord \<Rightarrow> candidate list" where
  "candidateOf it p c =
     (case close p of None \<Rightarrow> []
      | Some prev \<Rightarrow>
     (case close c of None \<Rightarrow> []
      | Some cur \<Rightarrow>
        if prev = 0 then []
        else (let changePct = jsMul (jsDiv (jsSub cur prev) prev) 100
              in if jsGe (jsAbs changePct) 3
                 then [\<lparr>c_date = date c, c_item = item_name it, c_itemObj = it,
                        c_change = changePct,
                        c_type = (if jsGt changePct 0 then Rise else Fall)\<rparr>]
                 else [])))"

fun scanSeries :: "eitem \<Rightarrow> series \<Rightarrow> candidate list" where
  "scanSeries it (p # c # rest) = candidateOf it p c @ scanSeries it (c # rest)"
| "scanSeries it _ = []"

definition candidateEvents :: "eitem list \<Rightarrow> series obj \<Rightarrow> candidate list" where
  "candidateEvents its raw =
     concat (map (\<lambda>it. scanSeries it (orEmpty (map_of raw (item_id it)))) its)"

definition buildMarketNewsByDate :: "newsItem list \<Rightarrow> (string \<times> string list) list" where
  "buildMarketNewsByDate marketNewsList =
     fold (\<lambda>n byDate.
        (let byDate1 = (if map_of byDate (n_date n) = None
                        then AList.update (n_date n) [] byDate else byDate)
         in AList.update (n_date n) (orEmpty (map_of byDate1 (n_date n)) @ [n_headline n]) byDate1))
       marketNewsList []"

text \<open>
  \<open>Math.abs(new Date(d).getTime() - new Date(eventDate).getTime()) / 86400000\<close>; the result
  is \<open>None\<close> for NaN, when one of the two strings is not a date.
\<close>

definition dayDiff :: "(string \<Rightarrow> int option) \<Rightarrow> string \<Rightarrow> string \<Rightarrow> real option" where
  "dayDiff getTime d e =
     (case getTime d of None \<Rightarrow> None
      | Some a \<Rightarrow> (case getTime e of None \<Rightarrow> None
      | Some b \<Rightarrow> Some (\<bar>real_of_int a - real_of_int b\<bar> / (24 * 60 * 60 * 1000))))"

text \<open>The scan of the map; the state is \<open>(best, bestDiff)\<close>, with \<open>None\<close> for \<open>Infinity\<close>.\<close>

fun scanHeadlines :: "(string \<Rightarrow> int option) \<Rightarrow> string \<Rightarrow> (string \<times> string list) list
    \<Rightarrow> string option \<times> real option \<Rightarrow> string option \<times> real option" where
  "scanHeadlines getTime e [] st = st"
| "scanHeadlines getTime e ((d, headlines) # rest) (best, bestDiff) =
     (case headlines of [] \<Rightarrow> scanHeadlines getTime e rest (best, bestDiff)
      | h # _ \<Rightarrow>
     (case dayDiff getTime d e of None \<Rightarrow> scanHeadlines getTime e rest (best, bestDiff)
      | Some diff \<Rightarrow>
        if diff \<le> 14 \<and> (case bestDiff of None \<Rightarrow> True | Some b \<Rightarrow> diff < b)
        then scanHeadlines getTime e rest (Some h, Some diff)
        else scanHeadlines getTime e rest (best, bestDiff)))"

definition getMarketHeadlineForDate :: "(string \<Rightarrow> int option) \<Rightarrow> (string \<times> string list) list
    \<Rightarrow> string \<Rightarrow> string option" where
  "getMarketHeadlineForDate getTime marketByDate eventDate =
     (case map_of marketByDate eventDate of
        Some (h # _) \<Rightarrow> Some h
      | _ \<Rightarrow> fst (scanHeadlines getTime eventDate marketByDate (None, None)))"

fun findIndex :: "('a \<Rightarrow> bool) \<Rightarrow> 'a list \<Rightarrow> nat option" where
  "findIndex P [] = None"
| "findIndex P (x # xs) =
     (if P x then Some 0 else (case findIndex P xs of None \<Rightarrow> None | Some i \<Rightarrow> Some (Suc i)))"

text \<open>The loop \<open>for (i = idx; i >= 1; i--)\<close> that counts the falls ending at \<open>idx\<close>.\<close>

fun consecDown :: "real list \<Rightarrow> nat \<Rightarrow> nat" where
  "consecDown closes 0 = 0"
| "consecDown closes (Suc i) =
     (if closes ! Suc i < closes ! i then Suc (consecDown closes i) else 0)"

text \<open>\<open>((a - b) / b) * 100\<close>, where \<open>b\<close> may be zero.\<close>

definition pctOf :: "real \<Rightarrow> real \<Rightarrow> jsnum" where
  "pctOf a b = jsMul (jsDiv (jsSub a b) b) 100"

record sellStats =
  st_curr :: real
  st_monthFirst :: real
  st_monthHigh :: real
  st_consecDown :: nat
  st_cumulChange :: jsnum
  st_fromHigh :: jsnum

text \<open>
  Lines 644 to 663: the quantities the decision table reads, or \<open>None\<close> where the source
  returns the dash.  The index found in \<open>sorted\<close> is used in \<open>closes\<close>, as in the source.
  \<open>closes[0]\<close> belongs to \<open>closes.slice(0, idx + 1)\<close>, so the maximum of the slice is the
  fold of \<open>max\<close> from it.
\<close>

definition sellStatsOf :: "series \<Rightarrow> string \<Rightarrow> sellStats option" where
  "sellStatsOf data evtDate =
     (if length data < 2 then None
      else (let sorted = sortByDate data;
                closes = List.map_filter close sorted
            in if length closes < 2 then None
               else (case findIndex (\<lambda>d. date d = evtDate) sorted of None \<Rightarrow> None
                     | Some idx \<Rightarrow>
                       if idx \<ge> length closes then None
                       else (let cur = closes ! idx;
                                 monthFirst = closes ! 0;
                                 monthHigh = fold max (take (Suc idx) closes) monthFirst
                             in Some \<lparr>st_curr = cur, st_monthFirst = monthFirst,
                                      st_monthHigh = monthHigh,
                                      st_consecDown = consecDown closes idx,
                                      st_cumulChange = pctOf cur monthFirst,
                                      st_fromHigh = pctOf cur monthHigh\<rparr>))))"

text \<open>Lines 665 to 684: the decision table.\<close>

definition sellDecision :: "sellStats \<Rightarrow> jsnum \<Rightarrow> evtype \<Rightarrow> advisory" where
  "sellDecision s changePct type =
     (case type of
        Fall \<Rightarrow>
          if jsLe changePct (-7) \<and> st_consecDown s \<ge> 2 then ImmediateSell
          else if jsLe changePct (-5) \<and> st_consecDown s \<ge> 2 then SellTrend
          else if jsLe (st_cumulChange s) (-5) \<and> jsLe (st_fromHigh s) (-5) then StopLoss
          else if st_consecDown s \<ge> 3 then ConsecutiveFall
          else if jsLe changePct (-5) then SharpFall
          else if jsLe (st_cumulChange s) (-3) then MonthlyFall
          else Volatility
      | Rise \<Rightarrow>
          if jsGe changePct 7 then PartialProfit
          else if jsGe (st_fromHigh s) (-1) \<and> jsGe changePct 5 then NearHigh
          else HoldOn)"

definition getSellTimingWarning :: "series \<Rightarrow> string \<Rightarrow> jsnum \<Rightarrow> evtype \<Rightarrow> advisory" where
  "getSellTimingWarning data evtDate changePct type =
     (case sellStatsOf data evtDate of None \<Rightarrow> NoAdvisory
      | Some s \<Rightarrow> sellDecision s changePct type)"

text \<open>\<open>!newsSym\<close> is true of \<open>null\<close> and of the empty string.\<close>

definition truthy :: "string option \<Rightarrow> bool" where
  "truthy v = (case v of None \<Rightarrow> False | Some s \<Rightarrow> s \<noteq> [])"

definition eventOf :: "(string \<Rightarrow> int option) \<Rightarrow> (string \<times> string list) list \<Rightarrow> series obj
    \<Rightarrow> candidate \<Rightarrow> outEvent" where
  "eventOf getTime marketByDate raw ev =
     \<lparr>e_date = c_date ev, e_item = c_item ev, e_change = c_change ev, e_type = c_type ev,
      newsHeadline = getMarketHeadlineForDate getTime marketByDate (c_date ev),
      sellWarning = getSellTimingWarning (orEmpty (map_of raw (item_id (c_itemObj ev))))
                      (c_date ev) (c_change ev) (c_type ev)\<rparr>"

text \<open>The loop over the candidates (lines 724 to 740).\<close>

fun eventsLoop :: "(string \<Rightarrow> int option) \<Rightarrow> (string \<times> string list) list \<Rightarrow> series obj
    \<Rightarrow> candidate list \<Rightarrow> outEvent list" where
  "eventsLoop getTime marketByDate raw [] = []"
| "eventsLoop getTime marketByDate raw (ev # rest) =
     (if \<not> truthy (newsSymbol (c_itemObj ev)) then eventsLoop getTime marketByDate raw rest
      else eventOf getTime marketByDate raw ev # eventsLoop getTime marketByDate raw rest)"

definition groupByDate :: "outEvent list \<Rightarrow> (outEvent list) obj" where
  "groupByDate events =
     fold (\<lambda>e byDate.
        (let byDate1 = (if map_of byDate (e_date e) = None
                        then AList.update (e_date e) [] byDate else byDate)
         in AList.update (e_date e) (orEmpty (map_of byDate1 (e_date e)) @ [e]) byDate1))
       events []"

section \<open>Environment and server state\<close>

datatype request =
    YahooChart string int int
  | FinnhubGeneral string
  | FinnhubCompany string "int option" "int option"

datatype httpResult = NetError string | TimedOut | Response nat string

text \<open>
  The messages of the errors the quote adapter raises.  Only \<open>DisallowedSymbol\<close> and
  \<open>FetchExhausted\<close> leave \<open>fetchChartFromYahoo\<close>; the others are caught by its retry loop.
\<close>

datatype fetchError =
    DisallowedSymbol string | ResponseTooLarge | RateLimited | HttpStatus nat
  | NetworkError string | Timeout | MalformedResponse | FetchExhausted

text \<open>
  A \<open>Date\<close> that is valid is its time value, an \<^typ>\<open>int\<close> of milliseconds.
  \<open>localFields\<close> is \<open>(getFullYear, getMonth, getDate)\<close>, \<open>utcFields\<close> the same in UTC,
  \<open>localTime y m d\<close> is \<open>new Date(y, m, d)\<close>, \<open>parseDate s\<close> is \<open>new Date(s).getTime()\<close>
  with \<open>None\<close> for NaN, \<open>dateOfJson\<close> the same of a value that is not a number,
  \<open>isoDate\<close> is \<open>toISOString().slice(0, 10)\<close>, \<open>toNumber\<close> is \<open>Number\<close> with \<open>None\<close> for a
  result that is not finite, \<open>jsString\<close> is \<open>String\<close>.  \<open>upstream req n\<close> is what the network
  answers to the request \<open>req\<close> when \<open>n\<close> requests have been sent before, and the
  milliseconds the answer takes.  \<open>apiKey\<close> is \<open>process.env.FINNHUB_API_KEY\<close>.
\<close>

record env =
  apiKey :: "string option"
  parseInt :: "string \<Rightarrow> int option"
  jsonParse :: "string \<Rightarrow> json option"
  toNumber :: "json \<Rightarrow> real option"
  jsString :: "json \<Rightarrow> string"
  parseDate :: "string \<Rightarrow> int option"
  dateOfJson :: "json \<Rightarrow> int option"
  isoDate :: "int \<Rightarrow> string"
  localFields :: "int \<Rightarrow> int \<times> nat \<times> nat"
  utcFields :: "int \<Rightarrow> int \<times> nat \<times> nat"
  localTime :: "int \<Rightarrow> int \<Rightarrow> int \<Rightarrow> int"
  upstream :: "request \<Rightarrow> nat \<Rightarrow> httpResult \<times> int"

record cacheEntry =
  ce_data :: series
  ce_expires :: int

record newsEntry =
  ne_data :: "newsItem list"
  ne_expires :: int

record snapshot =
  s_year :: int
  s_month :: int
  s_data :: "series obj option"
  s_updatedAt :: int

record failure =
  f_name :: string
  f_reason :: fetchError

text \<open>
  The module-level variables of the server, the clock (\<open>Date.now()\<close>) and the log of the
  requests sent to the providers.  The file on disk that \<open>scheduleSaveDailyCache\<close> writes
  from a later turn of the event loop is not part of the state.
\<close>

record server =
  symbolOverrides :: "override obj"
  cache :: "cacheEntry obj"
  dailyFileCache :: "snapshot obj"
  cacheSaveScheduled :: bool
  newsCache :: "newsEntry obj"
  clock :: int
  requests :: "request list"

section \<open>Utilities\<close>

definition MAX_RESPONSE_SIZE :: nat where
  "MAX_RESPONSE_SIZE = 5 * 1024 * 1024"

definition SAFE_NUM_MAX :: real where
  "SAFE_NUM_MAX = 10 ^ 15"

definition CACHE_TTL :: int where
  "CACHE_TTL = 60 * 60 * 1000"

definition NEWS_CACHE_TTL :: int where
  "NEWS_CACHE_TTL = 30 * 60 * 1000"

definition US_MARKET_NEWS_SYMBOLS :: "string list" where
  "US_MARKET_NEWS_SYMBOLS = [''AAPL'', ''NVDA'', ''SPY'', ''MSFT'']"

definition digitChar :: "nat \<Rightarrow> char" where
  "digitChar n = ''0123456789'' ! n"

fun showNat :: "nat \<Rightarrow> string" where
  "showNat n = (if n < 10 then [digitChar n] else showNat (n div 10) @ [digitChar (n mod 10)])"

declare showNat.simps [simp del]

definition showInt :: "int \<Rightarrow> string" where
  "showInt i = (if i < 0 then CHR ''-'' # showNat (nat (- i)) else showNat (nat i))"

text \<open>\<open>padStart(2, '0')\<close>\<close>

definition padStart2 :: "string \<Rightarrow> string" where
  "padStart2 s = replicate (2 - length s) CHR ''0'' @ s"

definition isDigit :: "char \<Rightarrow> bool" where
  "isDigit c = (CHR ''0'' \<le> c \<and> c \<le> CHR ''9'')"

text \<open>\<open>/^\d{4}-\d{2}-\d{2}$/\<close>\<close>

definition dateRegex :: "string \<Rightarrow> bool" where
  "dateRegex s =
     (length s = 10 \<and> list_all isDigit (take 4 s) \<and> s ! 4 = CHR ''-'' \<and>
      list_all isDigit (take 2 (drop 5 s)) \<and> s ! 7 = CHR ''-'' \<and>
      list_all isDigit (drop 8 s))"

definition sanitizeDate :: "env \<Rightarrow> string \<Rightarrow> string option" where
  "sanitizeDate env str =
     (if \<not> dateRegex str then None
      else if parseDate env str = None then None
      else Some str)"

definition sanitizeNum :: "env \<Rightarrow> json option \<Rightarrow> real option" where
  "sanitizeNum env val =
     (case val of None \<Rightarrow> None
      | Some JNull \<Rightarrow> None
      | Some v \<Rightarrow> (case toNumber env v of None \<Rightarrow> None
                   | Some n \<Rightarrow> if \<bar>n\<bar> > SAFE_NUM_MAX then None else Some n))"

definition getMonthRange :: "env \<Rightarrow> int \<Rightarrow> int \<Rightarrow> int \<times> int" where
  "getMonthRange env year month = (localTime env year (month - 1) 1, localTime env year month 0)"

definition formatYMD :: "env \<Rightarrow> int \<Rightarrow> string" where
  "formatYMD env d =
     (case localFields env d of (y, m, dd) \<Rightarrow>
        showInt y @ ''-'' @ padStart2 (showNat (m + 1)) @ ''-'' @ padStart2 (showNat dd))"

definition toTimestamp :: "int \<Rightarrow> int" where
  "toTimestamp d = d div 1000"

definition delay :: "int \<Rightarrow> server \<Rightarrow> server" where
  "delay ms st = st\<lparr>clock := clock st + ms\<rparr>"

definition getCacheKey :: "string \<Rightarrow> string \<Rightarrow> string \<Rightarrow> string" where
  "getCacheKey smb p1 p2 = smb @ '':'' @ p1 @ '':'' @ p2"

text \<open>\<open>https.get\<close>: the request is logged, the answer is the environment's.\<close>

definition httpGet :: "env \<Rightarrow> request \<Rightarrow> server \<Rightarrow> httpResult \<times> server" where
  "httpGet env req st =
     (case upstream env req (length (requests st)) of (res, elapsed) \<Rightarrow>
        (res, st\<lparr>clock := clock st + elapsed, requests := requests st @ [req]\<rparr>))"

text \<open>Property access \<open>x?.k\<close>, index access \<open>x?.[i]\<close>, truthiness and \<open>Array.isArray\<close>.\<close>

fun getProp :: "json option \<Rightarrow> string \<Rightarrow> json option" where
  "getProp (Some (JObj kvs)) k = map_of kvs k"
| "getProp _ k = None"

fun getIndex :: "json option \<Rightarrow> nat \<Rightarrow> json option" where
  "getIndex (Some (JArr xs)) i = (if i < length xs then Some (xs ! i) else None)"
| "getIndex (Some (JStr s)) i = (if i < length s then Some (JStr [s ! i]) else None)"
| "getIndex (Some (JObj kvs)) i = map_of kvs (showNat i)"
| "getIndex _ i = None"

fun jsTruthy :: "json option \<Rightarrow> bool" where
  "jsTruthy None = False"
| "jsTruthy (Some JNull) = False"
| "jsTruthy (Some (JBool b)) = b"
| "jsTruthy (Some (JNum x)) = (x \<noteq> 0)"
| "jsTruthy (Some (JStr s)) = (s \<noteq> [])"
| "jsTruthy (Some (JArr xs)) = True"
| "jsTruthy (Some (JObj kvs)) = True"

fun nullish :: "json option \<Rightarrow> bool" where
  "nullish None = True"
| "nullish (Some JNull) = True"
| "nullish (Some v) = False"

text \<open>\<open>new Date(x)\<close> of a number: the time value, or \<open>None\<close> for an invalid date.\<close>

definition newDate :: "real \<Rightarrow> int option" where
  "newDate x =
     (if \<bar>x\<bar> > 8.64 * 10 ^ 15 then None
      else Some (if x \<ge> 0 then \<lfloor>x\<rfloor> else \<lceil>x\<rceil>))"

section \<open>Quote source adapter\<close>

text \<open>
  The handlers of the response (lines 137 to 157): the promise settles once, with the body or
  with the first error.
\<close>

fun settle :: "httpResult \<Rightarrow> fetchError + string" where
  "settle (NetError m) = Inl (NetworkError m)"
| "settle TimedOut = Inl Timeout"
| "settle (Response status body) =
     (if length body > MAX_RESPONSE_SIZE then Inl ResponseTooLarge
      else if status = 429 \<or> sublist ''Too Many Requests'' body then Inl RateLimited
      else if status \<noteq> 200 then Inl (HttpStatus status)
      else Inr body)"

text \<open>
  One turn of the loop over \<open>chart.timestamp\<close> (lines 176 to 190).  An invalid date formats
  as a text the date pattern rejects.
\<close>

definition rowOf :: "env \<Rightarrow> json option \<Rightarrow> json list \<Rightarrow> nat \<Rightarrow> series" where
  "rowOf env quote timestamp i =
     (case timestamp ! i of
        JNum ts \<Rightarrow>
          (case newDate (ts * 1000) of None \<Rightarrow> []
           | Some d \<Rightarrow>
             (let dateStr = formatYMD env d
              in if sanitizeDate env dateStr = None then []
                 else (case sanitizeNum env (getIndex (getProp quote ''close'') i) of None \<Rightarrow> []
                       | Some c \<Rightarrow>
                           [\<lparr>date = dateStr, close = Some c,
                             opn = sanitizeNum env (getIndex (getProp quote ''open'') i),
                             high = sanitizeNum env (getIndex (getProp quote ''high'') i),
                             low = sanitizeNum env (getIndex (getProp quote ''low'') i),
                             volume = sanitizeNum env (getIndex (getProp quote ''volume'') i)\<rparr>])))
      | _ \<Rightarrow> [])"

text \<open>Lines 167 to 191; \<open>None\<close> when there is no chart with an array of timestamps.\<close>

definition parseChart :: "env \<Rightarrow> json \<Rightarrow> series option" where
  "parseChart env json =
     (let chart = getIndex (getProp (getProp (Some json) ''chart'') ''result'') 0
      in (case getProp chart ''timestamp'' of
            Some (JArr timestamp) \<Rightarrow>
              if \<not> jsTruthy chart then None
              else (let q = getIndex (getProp (getProp chart ''indicators'') ''quote'') 0;
                        quote = (if jsTruthy q then q else Some (JObj []))
                    in Some (concat (map (rowOf env quote timestamp) [0..<length timestamp])))
          | _ \<Rightarrow> None))"

text \<open>
  The retry loop (lines 130 to 201) over the values of \<open>retry\<close> still to run.  Every error
  of an attempt is caught, followed by a wait of \<open>(retry + 1) * 2000\<close> milliseconds.
\<close>

fun tryFetch :: "env \<Rightarrow> request \<Rightarrow> string \<Rightarrow> nat list \<Rightarrow> server
    \<Rightarrow> (fetchError + series) \<times> server" where
  "tryFetch env req cacheKey [] st = (Inl FetchExhausted, st)"
| "tryFetch env req cacheKey (retry # rest) st =
     (case httpGet env req st of (res, st1) \<Rightarrow>
        (case (case settle res of Inl e \<Rightarrow> Inl e
               | Inr html \<Rightarrow> (case jsonParse env html of None \<Rightarrow> Inl MalformedResponse
                              | Some json \<Rightarrow> Inr json)) of
           Inl err \<Rightarrow> tryFetch env req cacheKey rest (delay ((int retry + 1) * 2000) st1)
         | Inr json \<Rightarrow>
             (let result = orEmpty (parseChart env json)
              in (Inr result,
                  st1\<lparr>cache := AList.update cacheKey
                         \<lparr>ce_data = result, ce_expires = clock st1 + CACHE_TTL\<rparr> (cache st1)\<rparr>))))"

definition fetchChartFromYahoo :: "env \<Rightarrow> string \<Rightarrow> int \<Rightarrow> int \<Rightarrow> server
    \<Rightarrow> (fetchError + series) \<times> server" where
  "fetchChartFromYahoo env smb period1 period2 st =
     (if \<not> isSymbolAllowed (symbolOverrides st) smb then (Inl (DisallowedSymbol smb), st)
      else (let p1 = formatYMD env period1;
                p2 = formatYMD env period2;
                t1 = toTimestamp period1;
                t2 = (if t1 \<ge> toTimestamp period2 then t1 + 86400 else toTimestamp period2);
                cacheKey = getCacheKey smb p1 p2;
                fresh = (case map_of (cache st) cacheKey of None \<Rightarrow> None
                         | Some c \<Rightarrow> if ce_expires c > clock st then Some (ce_data c) else None)
            in (case fresh of
                  Some d \<Rightarrow> (Inr d, st)
                | None \<Rightarrow> tryFetch env (YahooChart smb t1 t2) cacheKey [0, 1, 2] st)))"

text \<open>
  Three notions to state properties of a fetch: the request it sends (lines 117 to 119 and
  127), that the response cache has no entry for it that is still valid (lines 121 to 125),
  and that the attempt answered as the \<open>n\<close>-th request of the server fails, because the
  answer settles to an error or because its body is not JSON (lines 132 to 165).
\<close>

definition chartRequest :: "string \<Rightarrow> int \<Rightarrow> int \<Rightarrow> request" where
  "chartRequest smb period1 period2 =
     YahooChart smb (toTimestamp period1)
       (if toTimestamp period1 \<ge> toTimestamp period2 then toTimestamp period1 + 86400
        else toTimestamp period2)"

definition noFreshEntry :: "env \<Rightarrow> server \<Rightarrow> string \<Rightarrow> int \<Rightarrow> int \<Rightarrow> bool" where
  "noFreshEntry env st smb period1 period2 =
     (case map_of (cache st) (getCacheKey smb (formatYMD env period1) (formatYMD env period2)) of
        None \<Rightarrow> True | Some c \<Rightarrow> \<not> ce_expires c > clock st)"

definition attemptFails :: "env \<Rightarrow> request \<Rightarrow> nat \<Rightarrow> bool" where
  "attemptFails env req n =
     (case settle (fst (upstream env req n)) of Inl err \<Rightarrow> True
      | Inr html \<Rightarrow> jsonParse env html = None)"

section \<open>Batch collector\<close>

text \<open>The loop of \<open>fetchAllHistorical\<close>, with \<open>results\<close>, \<open>failed\<close> and the state.\<close>

fun fetchLoop :: "env \<Rightarrow> int \<Rightarrow> int \<Rightarrow> eitem list
    \<Rightarrow> series obj \<times> failure list \<times> server \<Rightarrow> series obj \<times> failure list \<times> server" where
  "fetchLoop env start end [] acc = acc"
| "fetchLoop env start end (it # rest) (results, failed, st) =
     (case fetchChartFromYahoo env (item_symbol it) start end st of
        (Inr d, st1) \<Rightarrow>
          fetchLoop env start end rest
            (AList.update (item_id it) d results, failed, delay 500 st1)
      | (Inl err, st1) \<Rightarrow>
          fetchLoop env start end rest
            (AList.update (item_id it) [] results,
             failed @ [\<lparr>f_name = item_name it, f_reason = err\<rparr>], delay 500 st1))"

definition fetchAllHistorical :: "env \<Rightarrow> eitem list \<Rightarrow> int \<Rightarrow> int \<Rightarrow> server
    \<Rightarrow> series obj \<times> failure list \<times> server" where
  "fetchAllHistorical env its start end st = fetchLoop env start end its ([], [], st)"

section \<open>Monthly cache store\<close>

definition validateYearMonth :: "env \<Rightarrow> string \<Rightarrow> string \<Rightarrow> (int \<times> int) option" where
  "validateYearMonth env year month =
     (case parseInt env year of None \<Rightarrow> None
      | Some y \<Rightarrow> (case parseInt env month of None \<Rightarrow> None
      | Some m \<Rightarrow> if y < 2000 \<or> y > 2100 \<or> m < 1 \<or> m > 12 then None else Some (y, m)))"

definition getPeriodKey :: "int \<Rightarrow> int \<Rightarrow> string" where
  "getPeriodKey year month = showInt year @ ''-'' @ padStart2 (showInt month)"

definition scheduleSaveDailyCache :: "server \<Rightarrow> server" where
  "scheduleSaveDailyCache st =
     (if cacheSaveScheduled st then st else st\<lparr>cacheSaveScheduled := True\<rparr>)"

definition getCachedMonthly :: "server \<Rightarrow> int \<Rightarrow> int \<Rightarrow> (int \<times> int \<times> series obj) option" where
  "getCachedMonthly st year month =
     (case map_of (dailyFileCache st) (getPeriodKey year month) of None \<Rightarrow> None
      | Some entry \<Rightarrow> (case s_data entry of None \<Rightarrow> None
                       | Some d \<Rightarrow> Some (s_year entry, s_month entry, d)))"

text \<open>The loop of \<open>getMonthlyData\<close> that keeps the records of the month (lines 366 to 371).\<close>

definition filterToMonth :: "env \<Rightarrow> string \<Rightarrow> string \<Rightarrow> series obj \<Rightarrow> series obj" where
  "filterToMonth env monthStart monthEnd raw =
     fold (\<lambda>id results.
        AList.update id
          (sortByDate (filter (\<lambda>d. sanitizeDate env (date d) \<noteq> None
                                  \<and> date d \<ge> monthStart \<and> date d \<le> monthEnd)
                              (orEmpty (map_of raw id))))
          results)
       (map fst raw) []"

definition getMonthlyData :: "env \<Rightarrow> int \<Rightarrow> int \<Rightarrow> bool \<Rightarrow> server
    \<Rightarrow> (series obj \<times> failure list) \<times> server" where
  "getMonthlyData env year month forceRefresh st =
     (let monthStart = formatYMD env (localTime env year (month - 1) 1);
          now = clock st;
          isCurrentMonth = (case localFields env now of (y, m, dd) \<Rightarrow>
                              year = y \<and> month = int m + 1);
          endDate = (if isCurrentMonth then now else localTime env year month 0);
          monthEnd = formatYMD env endDate;
          key = getPeriodKey year month;
          cached = getCachedMonthly st year month
      in (case (if forceRefresh then None else cached) of
            Some (cy, cm, cdata) \<Rightarrow> ((cdata, []), st)
          | None \<Rightarrow>
             (case getMonthRange env year month of (start, end) \<Rightarrow>
               (let rangeEnd = (if isCurrentMonth then now else end)
                in (case fetchAllHistorical env (getEffectiveItems (symbolOverrides st))
                           start rangeEnd st of
                      (raw, failed, st1) \<Rightarrow>
                        (let results = filterToMonth env monthStart monthEnd raw;
                             toSave = (case (if forceRefresh then cached else None) of
                                         Some (cy, cm, cdata) \<Rightarrow> mergeMonthlyData cdata results
                                       | None \<Rightarrow> results);
                             st2 = st1\<lparr>dailyFileCache := AList.update key
                                     \<lparr>s_year = year, s_month = month, s_data = Some toSave,
                                      s_updatedAt = clock st1\<rparr> (dailyFileCache st1)\<rparr>
                         in ((toSave, failed), scheduleSaveDailyCache st2)))))))"


section \<open>News source adapter\<close>

text \<open>
  The conversion of one element in \<open>fetchNewsForSymbol\<close> (lines 486 to 489); the outer
  \<open>None\<close> is an exception (a property of \<open>null\<close>, \<open>substring\<close> of a value that is not a
  string, \<open>toISOString\<close> of an invalid date), which the function answers with the empty list.
\<close>

definition symbolNewsItem :: "env \<Rightarrow> json \<Rightarrow> (string option \<times> string) option" where
  "symbolNewsItem env n =
     (if n = JNull then None
      else (let dt = getProp (Some n) ''datetime'';
                hd0 = getProp (Some n) ''headline''
            in (case (if jsTruthy hd0 then hd0 else Some (JStr [])) of
                  Some (JStr h) \<Rightarrow>
                    if \<not> jsTruthy dt then Some (None, take 500 h)
                    else (case dt of None \<Rightarrow> None
                          | Some v \<Rightarrow> (case toNumber env v of None \<Rightarrow> None
                          | Some x \<Rightarrow> (case newDate (x * 1000) of None \<Rightarrow> None
                          | Some d \<Rightarrow> Some (Some (isoDate env d), take 500 h))))
                | _ \<Rightarrow> None)))"

definition capToToday :: "env \<Rightarrow> server \<Rightarrow> string \<Rightarrow> string" where
  "capToToday env st toDate =
     (let today = formatYMD env (clock st) in if toDate > today then today else toDate)"

definition toSeconds :: "int option \<Rightarrow> int option" where
  "toSeconds t = (case t of None \<Rightarrow> None | Some ms \<Rightarrow> Some (ms div 1000))"

definition freshNews :: "server \<Rightarrow> string \<Rightarrow> bool \<Rightarrow> newsItem list option" where
  "freshNews st key skipCache =
     (case map_of (newsCache st) key of None \<Rightarrow> None
      | Some c \<Rightarrow> if \<not> skipCache \<and> ne_expires c > clock st then Some (ne_data c) else None)"

definition fetchNewsForSymbol :: "env \<Rightarrow> string \<Rightarrow> string \<Rightarrow> string \<Rightarrow> bool \<Rightarrow> server
    \<Rightarrow> newsItem list \<times> server" where
  "fetchNewsForSymbol env smb fromDate toDate skipCache st =
     (let key = smb @ '':'' @ fromDate @ '':'' @ toDate
      in (case freshNews st key skipCache of
            Some d \<Rightarrow> (d, st)
          | None \<Rightarrow>
             if \<not> truthy (apiKey env) then ([], st)
             else (let toDateCapped = capToToday env st toDate;
                       fromTs = toSeconds (parseDate env (fromDate @ ''T00:00:00Z''));
                       toTs = toSeconds (parseDate env (toDateCapped @ ''T23:59:59Z''))
                   in (case httpGet env (FinnhubCompany smb fromTs toTs) st of
                         (Response status body, st1) \<Rightarrow>
                           (case jsonParse env (if body = [] then ''[]'' else body) of
                              Some (JArr parsed) \<Rightarrow>
                                (case those (map (symbolNewsItem env) parsed) of
                                   None \<Rightarrow> ([], st1)
                                 | Some ns \<Rightarrow>
                                    (let result = concat (map (\<lambda>(d, h). case d of None \<Rightarrow> []
                                             | Some ds \<Rightarrow> if ds = [] then []
                                                 else [\<lparr>n_date = ds, n_headline = h\<rparr>]) ns)
                                     in (result,
                                         st1\<lparr>newsCache := AList.update key
                                           \<lparr>ne_data = result,
                                            ne_expires = clock st1 + NEWS_CACHE_TTL\<rparr>
                                           (newsCache st1)\<rparr>)))
                            | _ \<Rightarrow> ([], st1))
                       | (_, st1) \<Rightarrow> ([], st1)))))"

text \<open>\<open>a ?? b ?? c ...\<close>: the first value that is neither \<open>null\<close> nor \<open>undefined\<close>.\<close>

fun coalesce :: "json option list \<Rightarrow> json option" where
  "coalesce [] = None"
| "coalesce [v] = v"
| "coalesce (v # vs) = (if nullish v then coalesce vs else v)"

text \<open>
  \<open>parseNewsItem\<close>; the outer \<open>None\<close> is the exception raised for an element that is
  \<open>null\<close>, the inner one the result \<open>null\<close>.
\<close>

definition parseNewsItem :: "env \<Rightarrow> json \<Rightarrow> newsItem option option" where
  "parseNewsItem env n =
     (if n = JNull then None
      else (let ts = coalesce [getProp (Some n) ''datetime'', getProp (Some n) ''publishedDate'',
                               getProp (Some n) ''date'', getProp (Some n) ''time''];
                head = coalesce [getProp (Some n) ''headline'', getProp (Some n) ''title'',
                                 getProp (Some n) ''summary'', Some (JStr [])];
                sec = (case ts of
                         Some (JNum t) \<Rightarrow> Some (if t < 10 ^ 12 then t else real_of_int \<lfloor>t / 1000\<rfloor>)
                       | Some (JStr []) \<Rightarrow> None
                       | Some JNull \<Rightarrow> None
                       | None \<Rightarrow> None
                       | Some v \<Rightarrow> (case dateOfJson env v of None \<Rightarrow> None
                                     | Some t \<Rightarrow> Some (real_of_int (t div 1000))))
            in Some (if \<not> jsTruthy head then None
                     else (case sec of None \<Rightarrow> None
                           | Some s \<Rightarrow> (case newDate (s * 1000) of None \<Rightarrow> None
                           | Some d \<Rightarrow> (case utcFields env d of (y, m, dd) \<Rightarrow>
                               Some \<lparr>n_date = showInt y @ ''-'' @ padStart2 (showNat (m + 1))
                                               @ ''-'' @ padStart2 (showNat dd),
                                     n_headline = take 500 (jsString env (the head))\<rparr>))))))"

text \<open>
  The loops over a parsed answer: an exception ends the loop and keeps what was pushed.
  The first one (in \<open>tryMarketNews\<close>) keeps the items of the window, the second one (the
  fall-back to the news of four companies) keeps every item and says whether it ended
  without an exception.
\<close>

fun pushGeneral :: "env \<Rightarrow> string \<Rightarrow> string \<Rightarrow> json list \<Rightarrow> newsItem list \<Rightarrow> newsItem list" where
  "pushGeneral env fromDate toDateCapped [] allNews = allNews"
| "pushGeneral env fromDate toDateCapped (n # ns) allNews =
     (case parseNewsItem env n of None \<Rightarrow> allNews
      | Some None \<Rightarrow> pushGeneral env fromDate toDateCapped ns allNews
      | Some (Some it) \<Rightarrow>
          pushGeneral env fromDate toDateCapped ns
            (if n_date it \<ge> fromDate \<and> n_date it \<le> toDateCapped then allNews @ [it] else allNews))"

fun pushCompany :: "env \<Rightarrow> json list \<Rightarrow> newsItem list \<Rightarrow> newsItem list \<times> bool" where
  "pushCompany env [] allNews = (allNews, True)"
| "pushCompany env (n # ns) allNews =
     (case parseNewsItem env n of None \<Rightarrow> (allNews, False)
      | Some None \<Rightarrow> pushCompany env ns allNews
      | Some (Some it) \<Rightarrow> pushCompany env ns (allNews @ [it]))"

definition tryMarketNews :: "env \<Rightarrow> string \<Rightarrow> string \<Rightarrow> string \<Rightarrow> newsItem list \<times> server
    \<Rightarrow> newsItem list \<times> server" where
  "tryMarketNews env path fromDate toDateCapped acc =
     (case acc of (allNews, st) \<Rightarrow>
       (case httpGet env (FinnhubGeneral path) st of
          (Response status body, st1) \<Rightarrow>
            (case jsonParse env (if body = [] then ''[]'' else body) of
               Some (JArr parsed) \<Rightarrow> (pushGeneral env fromDate toDateCapped parsed allNews, st1)
             | _ \<Rightarrow> (allNews, st1))
        | (_, st1) \<Rightarrow> (allNews, st1)))"

fun companyLoop :: "env \<Rightarrow> int option \<Rightarrow> int option \<Rightarrow> string list \<Rightarrow> newsItem list \<times> server
    \<Rightarrow> newsItem list \<times> server" where
  "companyLoop env fromTs toTs [] acc = acc"
| "companyLoop env fromTs toTs (smb # rest) (allNews, st) =
     (case httpGet env (FinnhubCompany smb fromTs toTs) st of
        (Response status body, st1) \<Rightarrow>
          (case jsonParse env (if body = [] then ''[]'' else body) of
             Some (JArr parsed) \<Rightarrow>
               (case pushCompany env parsed allNews of
                  (allNews1, finished) \<Rightarrow>
                    companyLoop env fromTs toTs rest
                      (allNews1, if finished then delay 150 st1 else st1))
           | _ \<Rightarrow> companyLoop env fromTs toTs rest (allNews, st1))
      | (_, st1) \<Rightarrow> companyLoop env fromTs toTs rest (allNews, st1))"

fun dedupNews :: "string list \<Rightarrow> newsItem list \<Rightarrow> newsItem list" where
  "dedupNews seen [] = []"
| "dedupNews seen (n # ns) =
     (let k = n_date n @ '':'' @ n_headline n
      in if k \<in> set seen then dedupNews seen ns else n # dedupNews (k # seen) ns)"

definition fetchMarketNews :: "env \<Rightarrow> string \<Rightarrow> string \<Rightarrow> bool \<Rightarrow> server
    \<Rightarrow> newsItem list \<times> server" where
  "fetchMarketNews env fromDate toDate skipCache st =
     (let key = ''market:'' @ fromDate @ '':'' @ toDate
      in (case freshNews st key skipCache of
            Some d \<Rightarrow> (d, st)
          | None \<Rightarrow>
             if \<not> truthy (apiKey env) then ([], st)
             else (let toDateCapped = capToToday env st toDate;
                       fromTs = toSeconds (parseDate env (fromDate @ ''T00:00:00Z''));
                       toTs = toSeconds (parseDate env (toDateCapped @ ''T23:59:59Z''));
                       a1 = tryMarketNews env ''market-news'' fromDate toDateCapped ([], st);
                       a2 = (if fst a1 = [] then tryMarketNews env ''news'' fromDate toDateCapped a1
                             else a1);
                       a3 = (if fst a2 = [] then companyLoop env fromTs toTs US_MARKET_NEWS_SYMBOLS a2
                             else a2)
                   in (case a3 of (allNews, st1) \<Rightarrow>
                        (let result = dedupNews [] allNews
                         in (result,
                             st1\<lparr>newsCache := AList.update key
                               \<lparr>ne_data = result, ne_expires = clock st1 + NEWS_CACHE_TTL\<rparr>
                               (newsCache st1)\<rparr>))))))"

section \<open>Routes\<close>

text \<open>
  What a route sends: \<open>apiError\<close> with its status (\<open>success: false\<close>), or the object of
  the daily and update routes, or the object of the event route (\<open>success: true\<close>).
  An empty list \<open>failed\<close> stands for the absent field.
\<close>

datatype response =
    ApiError nat
  | DailyOk int int "series obj" "eitem list" "failure list"
  | EventsOk int int "(outEvent list) obj" "failure list"


definition apiError :: "nat \<Rightarrow> response" where
  "apiError code = ApiError (if code \<ge> 500 then 500 else 400)"


definition apiUpdate :: "env \<Rightarrow> string \<Rightarrow> string \<Rightarrow> server \<Rightarrow> response \<times> server" where
  "apiUpdate env year month st =
     (case validateYearMonth env year month of None \<Rightarrow> (apiError 400, st)
      | Some (y, m) \<Rightarrow>
          (case getMonthlyData env y m True st of
             ((d, failed), st1) \<Rightarrow>
               (DailyOk y m d (getEffectiveItems (symbolOverrides st1)) failed, st1)))"

text \<open>
  The event route of the earlier revision.  The exceptions its \<open>catch\<close> would turn into
  status 500 are type errors on malformed cache contents; the records of the model are well
  typed, so that branch has no counterpart.
\<close>

definition eventsOf :: "env \<Rightarrow> server \<Rightarrow> series obj \<Rightarrow> newsItem list \<Rightarrow> outEvent list" where
  "eventsOf env st raw marketNews =
     eventsLoop (parseDate env) (buildMarketNewsByDate marketNews) raw
       (candidateEvents (getEffectiveItems (symbolOverrides st)) raw)"

definition apiEvents :: "env \<Rightarrow> string \<Rightarrow> string \<Rightarrow> string option \<Rightarrow> server
    \<Rightarrow> response \<times> server" where
  "apiEvents env year month refresh st =
     (case validateYearMonth env year month of None \<Rightarrow> (apiError 400, st)
      | Some (y, m) \<Rightarrow>
         (let forceRefresh = (refresh = Some ''1'')
          in (case getMonthlyData env y m forceRefresh st of
                ((raw, failed), st1) \<Rightarrow>
                  (case getMonthRange env y m of (start, end) \<Rightarrow>
                    (let monthStart = formatYMD env start;
                         monthEnd = formatYMD env end
                     in (case fetchMarketNews env monthStart monthEnd forceRefresh st1 of
                           (marketNews, st2) \<Rightarrow>
                             (EventsOk y m (groupByDate (eventsOf env st1 raw marketNews)) failed,
                              st2)))))))"

section \<open>Example inputs\<close>

definition mkRec :: "string \<Rightarrow> real \<Rightarrow> drecord" where
  "mkRec d c = \<lparr>date = d, close = Some c, opn = None, high = None, low = None, volume = None\<rparr>"

text \<open>Two records of one day, as two timestamps of one local day give.\<close>

definition dupSeries :: series where
  "dupSeries = [mkRec ''2024-03-01'' 1, mkRec ''2024-03-01'' 2]"

definition exDup :: "series obj" where
  "exDup = [(''sp500'', dupSeries)]"

definition exA :: "series obj" where
  "exA = [(''sp500'', [mkRec ''2024-03-04'' 100, mkRec ''2024-03-01'' 99]),
          (''gold'', [mkRec ''2024-03-01'' 2000])]"

definition exB :: "series obj" where
  "exB = [(''sp500'', [mkRec ''2024-03-06'' 95, mkRec ''2024-03-05'' 101]),
          (''apple'', [mkRec ''2024-03-05'' 170, mkRec ''2024-03-04'' 169])]"

definition exC :: "series obj" where
  "exC = [(''sp500'', [mkRec ''2024-03-05'' 96, mkRec ''2024-03-04'' 101])]"

text \<open>The instrument \<open>sp500\<close> and \<open>kospi\<close> of the configuration, without override.\<close>

definition sp500 :: eitem where
  "sp500 = \<lparr>item_id = ''sp500'', item_name = utf8 [83, 38, 80, 53, 48, 48, 236, 167, 128, 236, 136, 152],
            item_symbol = ''^GSPC'', item_unit = ''pt'', newsSymbol = Some ''SPY'',
            overridden = False\<rparr>"

definition kospi :: eitem where
  "kospi = \<lparr>item_id = ''kospi'',
            item_name = utf8 [236, 189, 148, 236, 138, 164, 237, 148, 188, 236, 167, 128, 236, 136, 152],
            item_symbol = ''^KS11'', item_unit = ''pt'', newsSymbol = None,
            overridden = False\<rparr>"



text \<open>Three consecutive days with the closes 100, 95 and 88.\<close>

definition scenario :: series where
  "scenario = [mkRec ''2024-03-04'' 100, mkRec ''2024-03-05'' 95, mkRec ''2024-03-06'' 88]"

text \<open>Moves of exactly three percent up and down, and one below the threshold.\<close>

definition threshold :: series where
  "threshold = [mkRec ''2024-03-04'' 10000, mkRec ''2024-03-05'' 10300,
                mkRec ''2024-03-06'' 9991, mkRec ''2024-03-07'' 10200]"

text \<open>
  The doubles that the literals \<open>3768.54\<close> and \<open>3881.5962\<close> denote: the quotient of their
  difference by the first, times 100, is a little less than 3 before rounding.
\<close>

definition nearThreshold :: series where
  "nearThreshold = [mkRec ''2024-03-04'' (4143553549738967 / 2 ^ 40),
                    mkRec ''2024-03-05'' (133370629882223 / 2 ^ 35)]"

text \<open>
  An environment in UTC for March 2024, read on 15 April 2024, with no key for the news
  provider.  The quote provider answers the symbol \<open>GC=F\<close> with an empty body and every
  other symbol with one bar of 5 March 2024.
\<close>

definition march :: "string \<Rightarrow> int option" where
  "march s =
     (if s = ''2024-03-01'' then Some 1709251200000
      else if s = ''2024-03-04'' then Some 1709510400000
      else if s = ''2024-03-05'' then Some 1709596800000
      else if s = ''2024-03-06'' then Some 1709683200000
      else if s = ''2024-03-25'' then Some 1711324800000
      else if s = ''2024-03-31'' then Some 1711843200000
      else None)"

definition demoFields :: "int \<Rightarrow> int \<times> nat \<times> nat" where
  "demoFields t =
     (if t = 1709251200000 then (2024, 2, 1)
      else if t = 1709596800000 then (2024, 2, 5)
      else if t = 1711843200000 then (2024, 2, 31)
      else (2024, 3, 15))"

definition demoTime :: "int \<Rightarrow> int \<Rightarrow> int \<Rightarrow> int" where
  "demoTime y m d =
     (if (y, m, d) = (2024, 2, 1) then 1709251200000
      else if (y, m, d) = (2024, 3, 0) then 1711843200000
      else 1713139200000)"



definition demoChart :: json where
  "demoChart = JObj [(''chart'', JObj [(''result'', JArr [JObj
       [(''timestamp'', JArr [JNum 1709596800]),
        (''indicators'', JObj [(''quote'', JArr [JObj [(''close'', JArr [JNum 100])]])])]])])]"

definition demoUpstream :: "request \<Rightarrow> nat \<Rightarrow> httpResult \<times> int" where
  "demoUpstream req n =
     (case req of
        YahooChart smb t1 t2 \<Rightarrow>
          if smb = ''GC=F'' then (Response 200 [], 100) else (Response 200 ''chart'', 100)
      | _ \<Rightarrow> (NetError ''offline'', 100))"

definition demoEnv :: env where
  "demoEnv = \<lparr>apiKey = None,
     parseInt = (\<lambda>s. if s = ''2024'' then Some 2024 else if s = ''3'' then Some 3 else None),
     jsonParse = (\<lambda>s. if s = ''chart'' then Some demoChart else None),
     toNumber = (\<lambda>v. case v of JNum x \<Rightarrow> Some x | _ \<Rightarrow> None),
     jsString = (\<lambda>v. case v of JStr s \<Rightarrow> s | _ \<Rightarrow> []),
     parseDate = march,
     dateOfJson = (\<lambda>v. case v of JStr s \<Rightarrow> march s | _ \<Rightarrow> None),
     isoDate = (\<lambda>t. ''2024-03-05''),
     localFields = demoFields,
     utcFields = demoFields,
     localTime = demoTime,
     upstream = demoUpstream\<rparr>"

text \<open>The same environment with the network down.\<close>

definition offlineEnv :: env where
  "offlineEnv = demoEnv\<lparr>upstream := (\<lambda>req n. (NetError ''offline'', 100))\<rparr>"

definition emptyServer :: server where
  "emptyServer = \<lparr>symbolOverrides = [], cache = [], dailyFileCache = [],
     cacheSaveScheduled = False, newsCache = [], clock = 1713139200000, requests = []\<rparr>"

text \<open>
  A server that holds a snapshot of March 2024 with the scenario for \<open>sp500\<close>, which has
  a news symbol, and for \<open>kospi\<close>, which has none.
\<close>

definition marchData :: "series obj" where
  "marchData = [(''sp500'', scenario), (''kospi'', scenario)]"

definition marchServer :: server where
  "marchServer = emptyServer\<lparr>dailyFileCache :=
     [(''2024-03'', \<lparr>s_year = 2024, s_month = 3, s_data = Some marchData,
                     s_updatedAt = 1713000000000\<rparr>)]\<rparr>"

text \<open>The same server with the market news of March 2024 in the news cache.\<close>

definition newsServer :: server where
  "newsServer = marchServer\<lparr>newsCache :=
     [(''market:2024-03-01:2024-03-31'',
       \<lparr>ne_data = [\<lparr>n_date = ''2024-03-05'', n_headline = ''Stocks slide''\<rparr>],
        ne_expires = 1713142800000\<rparr>)]\<rparr>"

definition lateNews :: "newsItem list" where
  "lateNews = [\<lparr>n_date = ''2024-03-25'', n_headline = ''Late rally''\<rparr>]"

definition demoNews :: "newsItem list" where
  "demoNews = [\<lparr>n_date = ''2024-03-25'', n_headline = ''Late rally''\<rparr>,
               \<lparr>n_date = ''2024-03-01'', n_headline = ''Fed holds rates''\<rparr>,
               \<lparr>n_date = ''2024-03-01'', n_headline = ''Chip stocks slide''\<rparr>]"

section \<open>Properties\<close>

lemma map_of_fold_update:
  "map_of (fold (\<lambda>k m. AList.update k (g k) m) ks m0) k =
     (if k \<in> set ks then Some (g k) else map_of m0 k)"
  by (induction ks arbitrary: m0) (auto simp: update_conv')

lemma map_of_fold_update_absent:
  "map_of (fold (\<lambda>k m. if map_of m k \<noteq> None then m else AList.update k (h k) m) ks m0) k =
     (case map_of m0 k of Some v \<Rightarrow> Some v
      | None \<Rightarrow> if k \<in> set ks then Some (h k) else None)"
  by (induction ks arbitrary: m0) (auto simp: update_conv' split: option.splits)

lemma mergeMonthlyData_lookup:
  "map_of (mergeMonthlyData E F) k =
     (case map_of E k of
        Some e \<Rightarrow> Some (mergeSeries e (orEmpty (map_of F k)))
      | None \<Rightarrow> (case map_of F k of Some f \<Rightarrow> Some (sortByDate f) | None \<Rightarrow> None))"
proof -
  have kE: "k \<in> set (map fst E) \<longleftrightarrow> map_of E k \<noteq> None"
    by (simp add: map_of_eq_None_iff)
  have kF: "k \<in> set (map fst F) \<longleftrightarrow> map_of F k \<noteq> None"
    by (simp add: map_of_eq_None_iff)
  show ?thesis
    unfolding mergeMonthlyData_def Let_def map_of_fold_update_absent map_of_fold_update kE kF
    by (auto simp: orEmpty_def split: option.splits)
qed


lemma map_of_keyed_find:
  "map_of (map (\<lambda>d. (date d, d)) ys) k = find (\<lambda>d. date d = k) ys"
  by (induction ys) auto

lemma setAll_map_of:
  "map_of (setAll xs m) k = (case lastWith xs k of Some d \<Rightarrow> Some d | None \<Rightarrow> map_of m k)"
proof (induction xs arbitrary: m rule: rev_induct)
  case Nil
  show ?case by (simp add: setAll_def lastWith_def)
next
  case (snoc x xs)
  have "setAll (xs @ [x]) m = AList.update (date x) x (setAll xs m)"
    by (simp add: setAll_def)
  then show ?case
    using snoc.IH [of m] by (simp add: update_conv' lastWith_def)
qed

lemma setAll_distinct:
  "distinct (map fst m) \<Longrightarrow> distinct (map fst (setAll xs m))"
  unfolding setAll_def by (induction xs arbitrary: m) (simp_all add: distinct_update)

lemma update_keyed:
  "\<forall>(k, d) \<in> set m. date d = k \<Longrightarrow> \<forall>(k, d) \<in> set (AList.update (date x) x m). date d = k"
  by (induction m) auto

lemma setAll_keyed:
  "\<forall>(k, d) \<in> set m. date d = k \<Longrightarrow> \<forall>(k, d) \<in> set (setAll xs m). date d = k"
  unfolding setAll_def
proof (induction xs arbitrary: m)
  case Nil
  then show ?case by simp
next
  case (Cons x xs)
  show ?case using Cons.IH [OF update_keyed [OF Cons.prems]] by simp
qed

lemma keyed_map_date:
  "\<forall>(k, d) \<in> set m. date d = k \<Longrightarrow> map date (map snd m) = map fst m"
  by (induction m) auto

lemma find_SomeD: "find P ys = Some d \<Longrightarrow> d \<in> set ys \<and> P d"
  by (induction ys) (auto split: if_splits)

lemma lastWith_SomeD: "lastWith xs k = Some d \<Longrightarrow> d \<in> set xs \<and> date d = k"
  unfolding lastWith_def using find_SomeD [of "\<lambda>d. date d = k" "rev xs" d] by simp

lemma lastWith_None_iff: "lastWith xs k = None \<longleftrightarrow> k \<notin> date ` set xs"
  unfolding lastWith_def by (auto simp: find_None_iff)

lemma lastWith_distinct:
  "distinct (map date xs) \<Longrightarrow> lastWith xs k = Some d \<longleftrightarrow> d \<in> set xs \<and> date d = k"
proof
  assume "lastWith xs k = Some d"
  then show "d \<in> set xs \<and> date d = k" by (rule lastWith_SomeD)
next
  assume dist: "distinct (map date xs)" and h: "d \<in> set xs \<and> date d = k"
  then have "lastWith xs k \<noteq> None" by (auto simp: lastWith_None_iff)
  then obtain d' where d': "lastWith xs k = Some d'" by auto
  from lastWith_SomeD [OF d'] have "d' \<in> set xs" "date d' = k" by auto
  with dist h have "d' = d" by (auto simp: distinct_map dest: inj_onD)
  with d' show "lastWith xs k = Some d" by simp
qed

lemma byDate_lookup: "map_of (setAll f (setAll e [])) k = pick e f k"
  by (simp add: setAll_map_of pick_def split: option.splits)

lemma mergeSeries_set: "set (mergeSeries e f) = {d. pick e f (date d) = Some d}"
proof -
  let ?U = "setAll f (setAll e [])"
  have dist: "distinct (map fst ?U)" by (simp add: setAll_distinct)
  have keyed: "\<forall>(k, d) \<in> set ?U. date d = k" by (intro setAll_keyed) simp
  have "set (mergeSeries e f) = snd ` set ?U" by (simp add: mergeSeries_def sortByDate_def)
  also have "\<dots> = ran (map_of ?U)" using ran_distinct [OF dist] by simp
  also have "\<dots> = {d. pick e f (date d) = Some d}"
  proof (rule set_eqI)
    fix d
    show "d \<in> ran (map_of ?U) \<longleftrightarrow> d \<in> {d. pick e f (date d) = Some d}"
    proof
      assume "d \<in> ran (map_of ?U)"
      then obtain k where k: "map_of ?U k = Some d" by (auto simp: ran_def)
      then have "(k, d) \<in> set ?U" by (rule map_of_SomeD)
      with keyed have "date d = k" by auto
      with k show "d \<in> {d. pick e f (date d) = Some d}" by (simp add: byDate_lookup)
    next
      assume "d \<in> {d. pick e f (date d) = Some d}"
      then have "map_of ?U (date d) = Some d" by (simp add: byDate_lookup)
      then show "d \<in> ran (map_of ?U)" by (auto simp: ran_def)
    qed
  qed
  finally show ?thesis .
qed

lemma mergeSeries_dates_distinct: "distinct (map date (mergeSeries e f))"
proof -
  let ?U = "setAll f (setAll e [])"
  define L where "L = map snd ?U"
  have dist: "distinct (map fst ?U)" by (simp add: setAll_distinct)
  have keyed: "\<forall>(k, d) \<in> set ?U. date d = k" by (intro setAll_keyed) simp
  have "map date L = map fst ?U" unfolding L_def by (rule keyed_map_date [OF keyed])
  with dist have "distinct (map date L)" by (simp only:)
  then have "distinct (map date (sort_key date L))" by (simp add: distinct_map)
  then show ?thesis by (simp only: mergeSeries_def sortByDate_def L_def)
qed

lemma mergeSeries_sorted: "sorted (map date (mergeSeries e f))"
  by (simp add: mergeSeries_def sortByDate_def)

lemma sort_key_unique:
  assumes "distinct (map k xs)" "distinct (map k ys)" "set xs = set ys"
  shows "sort_key k xs = sort_key k ys"
proof -
  have inj: "inj_on k (set xs)" using assms(1) by (simp add: distinct_map)
  have dx: "distinct (map k (sort_key k xs))" using assms(1) by (simp add: distinct_map)
  have dy: "distinct (map k (sort_key k ys))" using assms(2) by (simp add: distinct_map)
  have "set (map k (sort_key k xs)) = set (map k (sort_key k ys))" using assms(3) by simp
  then have "map k (sort_key k xs) = map k (sort_key k ys)"
    using dx dy by (intro sorted_distinct_set_unique) simp_all
  moreover have "inj_on k (set (sort_key k xs) \<union> set (sort_key k ys))"
    using inj assms(3) by simp
  ultimately show ?thesis by (simp add: inj_on_map_eq_map)
qed

lemma sorted_series_unique:
  assumes "sorted (map date xs)" "distinct (map date xs)"
          "sorted (map date ys)" "distinct (map date ys)" "set xs = set ys"
  shows "xs = ys"
proof -
  have "sort_key date xs = sort_key date ys" using assms by (intro sort_key_unique)
  then show ?thesis using assms by (simp add: sort_key_id_if_sorted)
qed


lemma pick_SomeD: "pick e f k = Some d \<Longrightarrow> date d = k"
  by (auto simp: pick_def split: option.splits dest: lastWith_SomeD)

lemma mergeSeries_eqI:
  assumes "\<And>d::drecord. pick e f (date d) = Some d \<longleftrightarrow> pick e' f' (date d) = Some d"
  shows "mergeSeries e f = mergeSeries e' f'"
  by (rule sorted_series_unique)
     (simp_all add: mergeSeries_sorted mergeSeries_dates_distinct mergeSeries_set assms)

lemma mergeSeries_comm:
  assumes "date ` set e \<inter> date ` set f = {}"
  shows "mergeSeries e f = mergeSeries f e"
proof (rule mergeSeries_eqI)
  fix d :: drecord
  have "lastWith e (date d) = None \<or> lastWith f (date d) = None"
    using assms by (auto simp: lastWith_None_iff)
  then show "pick e f (date d) = Some d \<longleftrightarrow> pick f e (date d) = Some d"
    by (auto simp: pick_def split: option.splits)
qed

lemma lastWith_mergeSeries: "lastWith (mergeSeries e f) k = pick e f k"
proof (cases "pick e f k")
  case None
  then have "k \<notin> date ` set (mergeSeries e f)"
    by (auto simp: mergeSeries_set dest: pick_SomeD)
  with None show ?thesis by (simp add: lastWith_None_iff)
next
  case (Some d)
  then have "d \<in> set (mergeSeries e f) \<and> date d = k"
    using pick_SomeD [OF Some] by (simp add: mergeSeries_set)
  with Some show ?thesis
    by (simp add: lastWith_distinct [OF mergeSeries_dates_distinct])
qed

lemma mergeSeries_idem: "mergeSeries (mergeSeries e f) f = mergeSeries e f"
proof (rule mergeSeries_eqI)
  fix d
  show "pick (mergeSeries e f) f (date d) = Some d \<longleftrightarrow> pick e f (date d) = Some d"
    by (simp add: pick_def lastWith_mergeSeries split: option.splits)
qed

lemma mergeSeries_Nil: "distinct (map date e) \<Longrightarrow> mergeSeries e [] = sortByDate e"
proof (rule sorted_series_unique)
  assume dist: "distinct (map date e)"
  show "set (mergeSeries e []) = set (sortByDate e)"
    by (auto simp: mergeSeries_set pick_def lastWith_def sortByDate_def
        lastWith_distinct [OF dist, unfolded lastWith_def])
  show "distinct (map date (sortByDate e))"
    using dist by (simp add: sortByDate_def distinct_map)
qed (simp_all add: mergeSeries_sorted mergeSeries_dates_distinct sortByDate_def)

lemma lastWith_Nil: "lastWith [] k = None"
  by (simp add: lastWith_def)

lemma lastWith_sortByDate:
  assumes dist: "distinct (map date f)"
  shows "lastWith (sortByDate f) k = lastWith f k"
proof (cases "lastWith f k")
  case None
  then have "k \<notin> date ` set (sortByDate f)" by (simp add: lastWith_None_iff sortByDate_def)
  then have "lastWith (sortByDate f) k = None" by (rule lastWith_None_iff [THEN iffD2])
  with None show ?thesis by simp
next
  case (Some d)
  have ds: "distinct (map date (sortByDate f))"
    using dist by (simp add: sortByDate_def distinct_map)
  from Some have "d \<in> set f \<and> date d = k" by (simp add: lastWith_distinct [OF dist])
  then have "d \<in> set (sortByDate f) \<and> date d = k" by (simp add: sortByDate_def)
  then have "lastWith (sortByDate f) k = Some d" by (simp only: lastWith_distinct [OF ds])
  with Some show ?thesis by simp
qed

lemma mergeSeries_sorted_same:
  assumes dist: "distinct (map date f)"
  shows "mergeSeries (sortByDate f) f = sortByDate f"
proof -
  have "mergeSeries (sortByDate f) f = mergeSeries f []"
    by (rule mergeSeries_eqI)
       (simp add: pick_def lastWith_sortByDate [OF dist] lastWith_Nil split: option.splits)
  then show ?thesis by (simp add: mergeSeries_Nil [OF dist])
qed

lemmas merge_eval = mergeMonthlyData_def mergeSeries_def sortByDate_def setAll_def orEmpty_def
  mkRec_def lastWith_def

text \<open>
  Claim C1.  Merging is commutative, instrument by instrument, on maps whose series for a
  common instrument have no date in common, and merging the same fresh map a second time
  changes nothing.  A series of the data model has one record for a date; of this the
  theorem needs only that the series of an instrument that one map alone holds has no date
  twice (for the second part: that only the fresh map holds).
\<close>

theorem mergeMonthlyData_commutative_idempotent:
  "((\<forall>i e f. map_of A i = Some e \<and> map_of B i = Some f \<longrightarrow> date ` set e \<inter> date ` set f = {}) \<and>
    (\<forall>i e. map_of A i = Some e \<and> map_of B i = None \<longrightarrow> distinct (map date e)) \<and>
    (\<forall>i f. map_of A i = None \<and> map_of B i = Some f \<longrightarrow> distinct (map date f))
      \<longrightarrow> map_of (mergeMonthlyData A B) = map_of (mergeMonthlyData B A)) \<and>
   ((\<forall>i f. map_of A i = None \<and> map_of B i = Some f \<longrightarrow> distinct (map date f))
      \<longrightarrow> map_of (mergeMonthlyData (mergeMonthlyData A B) B) = map_of (mergeMonthlyData A B))"
proof (intro conjI impI)
  assume h: "(\<forall>i e f. map_of A i = Some e \<and> map_of B i = Some f \<longrightarrow> date ` set e \<inter> date ` set f = {}) \<and>
    (\<forall>i e. map_of A i = Some e \<and> map_of B i = None \<longrightarrow> distinct (map date e)) \<and>
    (\<forall>i f. map_of A i = None \<and> map_of B i = Some f \<longrightarrow> distinct (map date f))"
  show "map_of (mergeMonthlyData A B) = map_of (mergeMonthlyData B A)"
  proof (rule ext)
    fix i
    show "map_of (mergeMonthlyData A B) i = map_of (mergeMonthlyData B A) i"
    proof (cases "map_of A i")
      case None
      then show ?thesis
        using h by (cases "map_of B i") (simp_all add: mergeMonthlyData_lookup orEmpty_def mergeSeries_Nil)
    next
      case (Some e)
      then show ?thesis
      proof (cases "map_of B i")
        case None
        with Some h show ?thesis
          by (simp add: mergeMonthlyData_lookup orEmpty_def mergeSeries_Nil)
      next
        case (Some f)
        with \<open>map_of A i = Some e\<close> h have "date ` set e \<inter> date ` set f = {}" by blast
        from mergeSeries_comm [OF this] Some \<open>map_of A i = Some e\<close> show ?thesis
          by (simp add: mergeMonthlyData_lookup orEmpty_def)
      qed
    qed
  qed
next
  assume h: "\<forall>i f. map_of A i = None \<and> map_of B i = Some f \<longrightarrow> distinct (map date f)"
  show "map_of (mergeMonthlyData (mergeMonthlyData A B) B) = map_of (mergeMonthlyData A B)"
  proof (rule ext)
    fix i
    show "map_of (mergeMonthlyData (mergeMonthlyData A B) B) i = map_of (mergeMonthlyData A B) i"
    proof (cases "map_of A i")
      case None
      then show ?thesis
        using h by (cases "map_of B i")
          (simp_all add: mergeMonthlyData_lookup orEmpty_def mergeSeries_sorted_same)
    next
      case (Some e)
      then show ?thesis
        by (simp add: mergeMonthlyData_lookup mergeSeries_idem)
    qed
  qed
qed


text \<open>
  Witness for C1: \<open>sp500\<close> is in both maps with disjoint dates, \<open>gold\<close> and \<open>apple\<close>
  are in one map each.
\<close>

theorem mergeMonthlyData_commutative_idempotent_witness:
  "date ` set (orEmpty (map_of exA ''sp500'')) \<inter> date ` set (orEmpty (map_of exB ''sp500'')) = {} \<and>
   distinct (map date (orEmpty (map_of exA ''gold''))) \<and>
   distinct (map date (orEmpty (map_of exB ''apple''))) \<and>
   map_of (mergeMonthlyData exA exB) = map_of (mergeMonthlyData exB exA) \<and>
   map_of (mergeMonthlyData (mergeMonthlyData exA exB) exB) = map_of (mergeMonthlyData exA exB)"
proof -
  have h1: "\<forall>i e f. map_of exA i = Some e \<and> map_of exB i = Some f \<longrightarrow> date ` set e \<inter> date ` set f = {}"
    by (simp add: exA_def exB_def mkRec_def)
  have h2: "\<forall>i e. map_of exA i = Some e \<and> map_of exB i = None \<longrightarrow> distinct (map date e)"
    by (simp add: exA_def exB_def mkRec_def)
  have h3: "\<forall>i f. map_of exA i = None \<and> map_of exB i = Some f \<longrightarrow> distinct (map date f)"
    by (simp add: exA_def exB_def mkRec_def)
  have pre: "date ` set (orEmpty (map_of exA ''sp500'')) \<inter> date ` set (orEmpty (map_of exB ''sp500'')) = {} \<and>
   distinct (map date (orEmpty (map_of exA ''gold''))) \<and>
   distinct (map date (orEmpty (map_of exB ''apple'')))"
    by (simp add: exA_def exB_def mkRec_def orEmpty_def)
  from mergeMonthlyData_commutative_idempotent [of exA exB] h1 h2 h3 pre show ?thesis by blast
qed

text \<open>
  The series of the data model have one record for a date.  For a series with two records of
  one day the two loops of the merge differ: the first keeps the last record of a day, the
  second, for an instrument that only the fresh map holds, keeps both.
\<close>

lemma mergeMonthlyData_duplicate_dates:
  "map_of (mergeMonthlyData [] exDup) ''sp500'' = Some [mkRec ''2024-03-01'' 1, mkRec ''2024-03-01'' 2]"
  "map_of (mergeMonthlyData exDup []) ''sp500'' = Some [mkRec ''2024-03-01'' 2]"
  "map_of (mergeMonthlyData (mergeMonthlyData [] exDup) exDup) ''sp500'' = Some [mkRec ''2024-03-01'' 2]"
  by (simp_all add: exDup_def dupSeries_def merge_eval)

text \<open>
  Claim C2.  For an instrument in both maps the merged series is sorted by date, has every
  date of either series exactly once, and carries for a date of the fresh series the fresh
  record of that date, otherwise the existing one.  For an instrument absent from the fresh
  map the merged series is sorted and has every date of the prior series; it is the sorted
  prior series, with the same records, since a series has no date twice.  For an instrument
  absent from the existing map the merged series is the sorted fresh series, with the same
  records.  An instrument in neither map is in neither the result.  No date of either input
  is dropped.  (Where a series had several records of one date, the last of them is the one
  of that date.)
\<close>

theorem mergeMonthlyData_series:
  "(\<forall>e f. map_of E i = Some e \<and> map_of F i = Some f \<longrightarrow>
      (\<exists>m. map_of (mergeMonthlyData E F) i = Some m \<and>
           sorted (map date m) \<and> distinct (map date m) \<and>
           set (map date m) = date ` set e \<union> date ` set f \<and>
           (\<forall>d \<in> set m. if date d \<in> date ` set f then lastWith f (date d) = Some d
                          else lastWith e (date d) = Some d))) \<and>
   (\<forall>e. map_of E i = Some e \<and> map_of F i = None \<longrightarrow>
      (\<exists>m. map_of (mergeMonthlyData E F) i = Some m \<and>
           sorted (map date m) \<and> distinct (map date m) \<and>
           set (map date m) = date ` set e \<and>
           (\<forall>d \<in> set m. lastWith e (date d) = Some d) \<and>
           (distinct (map date e) \<longrightarrow> m = sort_key date e \<and> mset m = mset e))) \<and>
   (\<forall>f. map_of E i = None \<and> map_of F i = Some f \<longrightarrow>
      (\<exists>m. map_of (mergeMonthlyData E F) i = Some m \<and>
           m = sort_key date f \<and> sorted (map date m) \<and> mset m = mset f)) \<and>
   (map_of E i = None \<and> map_of F i = None \<longrightarrow> map_of (mergeMonthlyData E F) i = None)"
proof -
  have dates: "set (map date (mergeSeries e f)) = date ` set e \<union> date ` set f" for e f
  proof (rule set_eqI)
    fix k
    show "k \<in> set (map date (mergeSeries e f)) \<longleftrightarrow> k \<in> date ` set e \<union> date ` set f"
    proof
      assume "k \<in> set (map date (mergeSeries e f))"
      then obtain d where "pick e f (date d) = Some d" "k = date d"
        by (auto simp: mergeSeries_set)
      then show "k \<in> date ` set e \<union> date ` set f"
        by (auto simp: pick_def split: option.splits dest: lastWith_SomeD)
    next
      assume "k \<in> date ` set e \<union> date ` set f"
      then have "pick e f k \<noteq> None"
        by (auto simp: pick_def lastWith_None_iff split: option.splits)
      then obtain d where d: "pick e f k = Some d" by auto
      with pick_SomeD [OF d] have "d \<in> set (mergeSeries e f)" "date d = k"
        by (simp_all add: mergeSeries_set)
      then show "k \<in> set (map date (mergeSeries e f))" by auto
    qed
  qed
  have origin: "\<forall>d \<in> set (mergeSeries e f).
      if date d \<in> date ` set f then lastWith f (date d) = Some d else lastWith e (date d) = Some d" for e f
  proof (rule ballI)
    fix d
    assume "d \<in> set (mergeSeries e f)"
    then have p: "pick e f (date d) = Some d" by (simp add: mergeSeries_set)
    show "if date d \<in> date ` set f then lastWith f (date d) = Some d
          else lastWith e (date d) = Some d"
    proof (cases "lastWith f (date d)")
      case None
      moreover from None have "date d \<notin> date ` set f" by (rule lastWith_None_iff [THEN iffD1])
      ultimately show ?thesis using p by (simp add: pick_def)
    next
      case (Some d')
      then have "date d \<in> date ` set f" using lastWith_None_iff [of f "date d"] by simp
      with Some p show ?thesis by (simp add: pick_def)
    qed
  qed
  show ?thesis
  proof (intro conjI allI impI)
    fix e f
    assume "map_of E i = Some e \<and> map_of F i = Some f"
    then have "map_of (mergeMonthlyData E F) i = Some (mergeSeries e f)"
      by (simp add: mergeMonthlyData_lookup orEmpty_def)
    with dates [of e f] origin [of e f]
    show "\<exists>m. map_of (mergeMonthlyData E F) i = Some m \<and>
           sorted (map date m) \<and> distinct (map date m) \<and>
           set (map date m) = date ` set e \<union> date ` set f \<and>
           (\<forall>d \<in> set m. if date d \<in> date ` set f then lastWith f (date d) = Some d
                          else lastWith e (date d) = Some d)"
      using mergeSeries_sorted [of e f] mergeSeries_dates_distinct [of e f] by blast
  next
    fix e
    assume "map_of E i = Some e \<and> map_of F i = None"
    then have m: "map_of (mergeMonthlyData E F) i = Some (mergeSeries e [])"
      by (simp add: mergeMonthlyData_lookup orEmpty_def)
    have o: "\<forall>d \<in> set (mergeSeries e []). lastWith e (date d) = Some d"
      using origin [of e "[]"] by simp
    have u: "distinct (map date e) \<longrightarrow> mergeSeries e [] = sort_key date e \<and> mset (mergeSeries e []) = mset e"
      by (simp add: mergeSeries_Nil sortByDate_def)
    have dt: "set (map date (mergeSeries e [])) = date ` set e" using dates [of e "[]"] by simp
    from m o u dt
    show "\<exists>m. map_of (mergeMonthlyData E F) i = Some m \<and>
           sorted (map date m) \<and> distinct (map date m) \<and>
           set (map date m) = date ` set e \<and>
           (\<forall>d \<in> set m. lastWith e (date d) = Some d) \<and>
           (distinct (map date e) \<longrightarrow> m = sort_key date e \<and> mset m = mset e)"
      using mergeSeries_sorted [of e "[]"] mergeSeries_dates_distinct [of e "[]"] by blast
  next
    fix f
    assume "map_of E i = None \<and> map_of F i = Some f"
    then show "\<exists>m. map_of (mergeMonthlyData E F) i = Some m \<and>
           m = sort_key date f \<and> sorted (map date m) \<and> mset m = mset f"
      by (simp add: mergeMonthlyData_lookup sortByDate_def)
  next
    assume "map_of E i = None \<and> map_of F i = None"
    then show "map_of (mergeMonthlyData E F) i = None"
      by (simp add: mergeMonthlyData_lookup)
  qed
qed

text \<open>
  Witness for C2: \<open>sp500\<close> is in both maps and both have 4 March, where the fresh record
  wins; \<open>gold\<close> is only in the existing map, \<open>apple\<close> only in the fresh one.
\<close>

theorem mergeMonthlyData_series_witness:
  "map_of exA ''sp500'' = Some [mkRec ''2024-03-04'' 100, mkRec ''2024-03-01'' 99] \<and>
   map_of exC ''sp500'' = Some [mkRec ''2024-03-05'' 96, mkRec ''2024-03-04'' 101] \<and>
   map_of (mergeMonthlyData exA exC) ''sp500'' =
     Some [mkRec ''2024-03-01'' 99, mkRec ''2024-03-04'' 101, mkRec ''2024-03-05'' 96] \<and>
   map_of exC ''gold'' = None \<and>
   map_of (mergeMonthlyData exA exC) ''gold'' = Some [mkRec ''2024-03-01'' 2000] \<and>
   map_of exA ''apple'' = None \<and>
   map_of (mergeMonthlyData exA exB) ''apple'' =
     Some [mkRec ''2024-03-04'' 169, mkRec ''2024-03-05'' 170]"
proof -
  have a: "map_of exA ''apple'' = None \<and>
      map_of exB ''apple'' = Some [mkRec ''2024-03-05'' 170, mkRec ''2024-03-04'' 169]"
    by (simp add: exA_def exB_def)
  from mergeMonthlyData_series [of exA "''apple''" exB] a
  have "map_of (mergeMonthlyData exA exB) ''apple''
      = Some (sort_key date [mkRec ''2024-03-05'' 170, mkRec ''2024-03-04'' 169])"
    by blast
  then have "map_of (mergeMonthlyData exA exB) ''apple'' =
     Some [mkRec ''2024-03-04'' 169, mkRec ''2024-03-05'' 170]"
    by (simp add: mkRec_def)
  moreover have "map_of (mergeMonthlyData exA exC) ''sp500'' =
     Some [mkRec ''2024-03-01'' 99, mkRec ''2024-03-04'' 101, mkRec ''2024-03-05'' 96]"
    by (simp add: exA_def exC_def merge_eval)
  moreover have "map_of (mergeMonthlyData exA exC) ''gold'' = Some [mkRec ''2024-03-01'' 2000]"
    by (simp add: exA_def exC_def merge_eval)
  ultimately show ?thesis
    by (simp add: exA_def exC_def)
qed

text \<open>
  The rounding of section \<open>Arithmetic of doubles\<close> is the rounding to nearest of binary64:
  in the range of the normal numbers \<open>exponent x\<close> is the exponent of \<open>x\<close>, the result is a
  multiple of \<open>2^(exponent x - 52)\<close>, it is at most half of that spacing away from the exact
  value, and of two multiples that are equally near the even one is taken.
\<close>

lemma pow2_pos: "0 < pow2 e"
  by (simp add: pow2_def)

lemma pow2_Suc: "pow2 (e + 1) = 2 * pow2 e"
proof (cases "e \<ge> 0")
  case True
  then show ?thesis by (simp add: pow2_def nat_add_distrib)
next
  case False
  then have "nat (- e) = Suc (nat (- (e + 1)))" by simp
  then show ?thesis using False by (simp add: pow2_def)
qed

lemma expUp_spec:
  "1 \<le> x \<Longrightarrow> x < 2 ^ n \<Longrightarrow>
     0 \<le> expUp n x \<and> pow2 (expUp n x) \<le> x \<and> x < pow2 (expUp n x + 1)"
proof (induction n arbitrary: x)
  case 0
  then show ?case by simp
next
  case (Suc n)
  show ?case
  proof (cases "x < 2")
    case True
    with Suc.prems show ?thesis by (simp add: pow2_def)
  next
    case False
    with Suc.prems have "1 \<le> x / 2" "x / 2 < 2 ^ n" by simp_all
    from Suc.IH [OF this]
    have ih: "0 \<le> expUp n (x / 2)" "pow2 (expUp n (x / 2)) \<le> x / 2"
      "x / 2 < pow2 (expUp n (x / 2) + 1)"
      by simp_all
    have e: "expUp (Suc n) x = expUp n (x / 2) + 1"
      using False by simp
    have "pow2 (expUp n (x / 2) + 1) \<le> x"
      using ih(2) pow2_Suc [of "expUp n (x / 2)"] by linarith
    moreover have "x < pow2 (expUp n (x / 2) + 1 + 1)"
      using ih(3) pow2_Suc [of "expUp n (x / 2) + 1"] by linarith
    ultimately show ?thesis
      using ih(1) unfolding e by simp
  qed
qed

lemma expDown_spec:
  "0 < x \<Longrightarrow> x < 1 \<Longrightarrow> 1 \<le> 2 ^ n * x \<Longrightarrow>
     pow2 (expDown n x) \<le> x \<and> x < pow2 (expDown n x + 1)"
proof (induction n arbitrary: x)
  case 0
  then show ?case by simp
next
  case (Suc n)
  show ?case
  proof (cases "1 \<le> 2 * x")
    case True
    then have "expDown (Suc n) x = expDown n (2 * x) - 1" using Suc.prems by simp
    moreover have "expDown n (2 * x) = 0" using True by (cases n) simp_all
    ultimately show ?thesis using True Suc.prems by (simp add: pow2_def)
  next
    case False
    with Suc.prems have "0 < 2 * x" "2 * x < 1" "1 \<le> 2 ^ n * (2 * x)" by simp_all
    from Suc.IH [OF this] Suc.prems
    have ih: "pow2 (expDown n (2 * x)) \<le> 2 * x" "2 * x < pow2 (expDown n (2 * x) + 1)" by simp_all
    have "expDown (Suc n) x = expDown n (2 * x) - 1" using Suc.prems by simp
    moreover have "pow2 (expDown n (2 * x)) = 2 * pow2 (expDown n (2 * x) - 1)"
      using pow2_Suc [of "expDown n (2 * x) - 1"] by simp
    ultimately show ?thesis using ih by (simp add: pow2_Suc)
  qed
qed

lemma exponent_spec:
  assumes "pow2 (- 1022) \<le> \<bar>x\<bar>" "\<bar>x\<bar> < pow2 1024"
  shows "pow2 (exponent x) \<le> \<bar>x\<bar> \<and> \<bar>x\<bar> < pow2 (exponent x + 1)"
proof (cases "1 \<le> \<bar>x\<bar>")
  case True
  moreover from assms(2) have "\<bar>x\<bar> < 2 ^ 1024" by (simp add: pow2_def)
  ultimately show ?thesis
    using expUp_spec [of "\<bar>x\<bar>" 1024] by (simp add: exponent_def)
next
  case False
  moreover from assms(1) have "1 \<le> 2 ^ 1022 * \<bar>x\<bar>" by (simp add: pow2_def field_simps)
  moreover from assms(1) have "0 < \<bar>x\<bar>" using pow2_pos [of "- 1022"] by linarith
  ultimately show ?thesis
    using expDown_spec [of "\<bar>x\<bar>" 1022] by (simp add: exponent_def)
qed

lemma roundEven_near: "\<bar>of_int (roundEven z) - z\<bar> \<le> 1 / 2"
  unfolding roundEven_def Let_def by (auto simp: abs_if) linarith+

lemma rnd_nearest:
  assumes "rnd x = Fin y"
  shows "\<bar>y - x\<bar> \<le> pow2 (exponent x - 52) / 2"
proof (cases "x = 0")
  case True
  with assms show ?thesis using pow2_pos [of "exponent 0 - 52"] by (simp add: rnd_def)
next
  case False
  define u where "u = pow2 (exponent x - 52)"
  have u: "0 < u" by (simp add: u_def pow2_pos)
  from assms False have y: "y = of_int (roundEven (x / u)) * u"
    by (simp add: rnd_def Let_def u_def split: if_splits)
  have "y - x = (of_int (roundEven (x / u)) - x / u) * u"
    using u by (simp add: y field_simps)
  then have "\<bar>y - x\<bar> = \<bar>of_int (roundEven (x / u)) - x / u\<bar> * u"
    using u by (simp add: abs_mult)
  also have "\<dots> \<le> (1 / 2) * u"
    using roundEven_near [of "x / u"] u by (intro mult_right_mono) simp_all
  finally show ?thesis by (simp add: u_def)
qed

lemma roundEven_tie: "roundEven (of_int k + 1 / 2) = (if even k then k else k + 1)"
proof -
  have "\<lfloor>of_int k + (1 / 2 :: real)\<rfloor> = k" by linarith
  then show ?thesis by (simp add: roundEven_def Let_def)
qed

lemma rnd_multiple:
  assumes "rnd x = Fin y"
  shows "\<exists>n. y = of_int n * pow2 (exponent x - 52)"
proof (cases "x = 0")
  case True
  with assms have "y = of_int 0 * pow2 (exponent x - 52)" by (simp add: rnd_def)
  then show ?thesis by blast
next
  case False
  with assms show ?thesis
    by (auto simp: rnd_def Let_def split: if_splits)
qed

text \<open>Evaluation of the arithmetic of doubles on numerals.\<close>

lemma expUp_unfold:
  "expUp n x = (if n = 0 then 0 else if x < 2 then 0 else expUp (n - 1) (x / 2) + 1)"
  by (cases n) simp_all

lemma expDown_unfold:
  "expDown n x = (if n = 0 then 0 else if 1 \<le> x then 0 else expDown (n - 1) (2 * x) - 1)"
  by (cases n) simp_all

lemmas rnd_eval = rnd_def exponent_def expUp_unfold expDown_unfold pow2_def roundEven_def Let_def


lemma rnd_examples:
  "rnd (1 / 10) = Fin (3602879701896397 / 2 ^ 55)"
  "rnd (2 ^ 53 + 1) = Fin (2 ^ 53)"
  "rnd (2 ^ 53 + 3) = Fin (2 ^ 53 + 4)"
  "rnd (- 5) = Fin (- 5)"
  by (simp_all add: rnd_eval)


lemma pct_eval:
  "jsMul (jsDiv (jsSub 95 100) 100) 100 = Fin (- 5)"
  "jsMul (jsDiv (jsSub 88 95) 95) 100 = Fin (- (8296104576735123 / 2 ^ 50))"
  "jsMul (jsDiv (jsSub 88 100) 100) 100 = Fin (- 12)"
  "jsMul (jsDiv (jsSub 10300 10000) 10000) 100 = Fin 3"
  "jsMul (jsDiv (jsSub 9991 10300) 10300) 100 = Fin (- 3)"
  "jsMul (jsDiv (jsSub 10200 9991) 9991) 100 = Fin (2355250530778785 / 2 ^ 50)"
  by (simp_all add: jsSub_def rnd_eval)

lemma shift_pairs:
  "(\<And>i. i \<in> set L \<Longrightarrow> 0 < i) \<Longrightarrow>
   map (\<lambda>i. f ((p # ys) ! (i - 1)) ((p # ys) ! i)) (map Suc L) = map (\<lambda>i. f (ys ! (i - 1)) (ys ! i)) L"
  by (induction L) (auto simp: nth_Cons')

lemma scanSeries_concat:
  "scanSeries it xs = concat (map (\<lambda>i. candidateOf it (xs ! (i - 1)) (xs ! i)) [1..<length xs])"
proof (induction it xs rule: scanSeries.induct)
  case (1 it p c rest)
  let ?xs = "p # c # rest"
  define L where "L = [1..<length (c # rest)]"
  have pos: "\<And>i. i \<in> set L \<Longrightarrow> 0 < i" by (auto simp: L_def)
  have "[1..<length ?xs] = 1 # [Suc 1..<Suc (length (c # rest))]"
    by (subst upt_rec) simp
  then have "[1..<length ?xs] = 1 # map Suc L"
    by (simp only: map_Suc_upt L_def)
  then have "concat (map (\<lambda>i. candidateOf it (?xs ! (i - 1)) (?xs ! i)) [1..<length ?xs])
      = candidateOf it p c
        @ concat (map (\<lambda>i. candidateOf it (?xs ! (i - 1)) (?xs ! i)) (map Suc L))"
    by simp
  also have "\<dots> = candidateOf it p c
        @ concat (map (\<lambda>i. candidateOf it ((c # rest) ! (i - 1)) ((c # rest) ! i)) L)"
    by (simp only: shift_pairs [of L "candidateOf it" p "c # rest", OF pos])
  also have "\<dots> = scanSeries it ?xs"
    using "1.IH" by (simp add: L_def)
  finally show ?case by simp
qed simp_all

lemma candidateEvents_concat:
  "candidateEvents its raw =
     concat (map (\<lambda>it. concat (map (\<lambda>i. candidateOf it (orEmpty (map_of raw (item_id it)) ! (i - 1))
                                                      (orEmpty (map_of raw (item_id it)) ! i))
                                   [1..<length (orEmpty (map_of raw (item_id it)))])) its)"
  by (simp add: candidateEvents_def scanSeries_concat)

lemma candidateOf_cases:
  "candidateOf it p c =
     (case (close p, close c) of
        (Some prev, Some cur) \<Rightarrow>
          if prev \<noteq> 0 \<and> jsGe (jsAbs (jsMul (jsDiv (jsSub cur prev) prev) 100)) 3
          then [\<lparr>c_date = date c, c_item = item_name it, c_itemObj = it,
                 c_change = jsMul (jsDiv (jsSub cur prev) prev) 100,
                 c_type = (if jsGt (jsMul (jsDiv (jsSub cur prev) prev) 100) 0 then Rise else Fall)\<rparr>]
          else []
      | _ \<Rightarrow> [])"
  by (cases "close p"; cases "close c") (simp_all add: candidateOf_def Let_def)

lemma candidateOf_nonempty:
  "candidateOf it p c \<noteq> [] \<longleftrightarrow>
     (\<exists>prev cur. close p = Some prev \<and> close c = Some cur \<and> prev \<noteq> 0
        \<and> jsGe (jsAbs (jsMul (jsDiv (jsSub cur prev) prev) 100)) 3)"
  by (cases "close p"; cases "close c") (simp_all add: candidateOf_cases)

lemma candidateOf_iff:
  "ev \<in> set (candidateOf it p c) \<longleftrightarrow>
     (\<exists>prev cur. close p = Some prev \<and> close c = Some cur \<and> prev \<noteq> 0 \<and>
        jsGe (jsAbs (jsMul (jsDiv (jsSub cur prev) prev) 100)) 3 \<and>
        ev = \<lparr>c_date = date c, c_item = item_name it, c_itemObj = it,
              c_change = jsMul (jsDiv (jsSub cur prev) prev) 100,
              c_type = (if jsGt (jsMul (jsDiv (jsSub cur prev) prev) 100) 0 then Rise else Fall)\<rparr>)"
  by (cases "close p"; cases "close c") (auto simp: candidateOf_cases)

lemma sign_of_change:
  "jsGe (jsAbs x) 3 \<Longrightarrow> \<not> jsGt x 0 \<longleftrightarrow> jsLt x 0"
  by (cases x) auto

lemma candidateOf_member:
  assumes "ev \<in> set (candidateOf it p c)"
  shows "candidateOf it p c = [ev] \<and> c_date ev = date c \<and> c_item ev = item_name it
     \<and> c_itemObj ev = it
     \<and> (\<exists>prev cur. close p = Some prev \<and> close c = Some cur
           \<and> c_change ev = jsMul (jsDiv (jsSub cur prev) prev) 100)
     \<and> jsGe (jsAbs (c_change ev)) 3
     \<and> (c_type ev = Rise \<longleftrightarrow> jsGt (c_change ev) 0) \<and> (c_type ev = Fall \<longleftrightarrow> jsLt (c_change ev) 0)"
proof -
  from assms obtain prev cur where pc: "close p = Some prev" "close c = Some cur" "prev \<noteq> 0"
    and big: "jsGe (jsAbs (jsMul (jsDiv (jsSub cur prev) prev) 100)) 3"
    and ev: "ev = \<lparr>c_date = date c, c_item = item_name it, c_itemObj = it,
              c_change = jsMul (jsDiv (jsSub cur prev) prev) 100,
              c_type = (if jsGt (jsMul (jsDiv (jsSub cur prev) prev) 100) 0 then Rise else Fall)\<rparr>"
    unfolding candidateOf_iff by blast
  have one: "candidateOf it p c = [ev]"
    using pc big ev by (simp add: candidateOf_cases)
  have ch: "c_change ev = jsMul (jsDiv (jsSub cur prev) prev) 100"
    using ev by simp
  have ty: "(c_type ev = Rise \<longleftrightarrow> jsGt (c_change ev) 0) \<and> (c_type ev = Fall \<longleftrightarrow> jsLt (c_change ev) 0)"
    using sign_of_change [OF big] ev by auto
  show ?thesis
    using one ch ty big pc ev by auto
qed

lemma scanSeries_member:
  "ev \<in> set (scanSeries it xs) \<Longrightarrow> \<exists>p c. ev \<in> set (candidateOf it p c)"
  by (induction it xs rule: scanSeries.induct) auto

lemma candidateEvents_member:
  "ev \<in> set (candidateEvents its raw) \<Longrightarrow> \<exists>it p c. it \<in> set its \<and> ev \<in> set (candidateOf it p c)"
  by (auto simp: candidateEvents_def dest: scanSeries_member)

lemma candidateEvents_iff:
  "ev \<in> set (candidateEvents its raw) \<longleftrightarrow>
     (\<exists>it \<in> set its. \<exists>i prev cur.
        0 < i \<and> i < length (orEmpty (map_of raw (item_id it))) \<and>
        close (orEmpty (map_of raw (item_id it)) ! (i - 1)) = Some prev \<and>
        close (orEmpty (map_of raw (item_id it)) ! i) = Some cur \<and> prev \<noteq> 0 \<and>
        jsGe (jsAbs (jsMul (jsDiv (jsSub cur prev) prev) 100)) 3 \<and>
        ev = \<lparr>c_date = date (orEmpty (map_of raw (item_id it)) ! i), c_item = item_name it,
              c_itemObj = it, c_change = jsMul (jsDiv (jsSub cur prev) prev) 100,
              c_type = (if jsGt (jsMul (jsDiv (jsSub cur prev) prev) 100) 0 then Rise else Fall)\<rparr>)"
proof -
  have "ev \<in> set (candidateEvents its raw) \<longleftrightarrow>
      (\<exists>it \<in> set its. \<exists>i. 0 < i \<and> i < length (orEmpty (map_of raw (item_id it))) \<and>
         ev \<in> set (candidateOf it (orEmpty (map_of raw (item_id it)) ! (i - 1))
                     (orEmpty (map_of raw (item_id it)) ! i)))"
    unfolding candidateEvents_concat by (simp add: Bex_def Suc_le_eq)
  then show ?thesis
    unfolding candidateOf_iff by blast
qed

text \<open>
  Claim C3.  The candidates of the event route are, instrument by instrument and in the order
  of the series, what the loop body emits for the adjacent pairs \<open>(data[i-1], data[i])\<close>.
  The body emits a candidate if and only if both closes are present, the previous close is
  not zero and the absolute value of \<open>(cur - prev) / prev * 100\<close>, as the source computes it,
  is at least 3 (the bound included); it emits at most one, dated by the later record.  So
  a record is a candidate of the route if and only if it is the candidate of such a pair of
  the series of one of the instruments.  Every candidate of the route is a rise exactly when
  its change is greater than zero and a fall exactly when it is less.
\<close>

theorem candidate_emitted_iff:
  "candidateEvents its raw =
     concat (map (\<lambda>it. concat (map (\<lambda>i. candidateOf it (orEmpty (map_of raw (item_id it)) ! (i - 1))
                                                      (orEmpty (map_of raw (item_id it)) ! i))
                                   [1..<length (orEmpty (map_of raw (item_id it)))])) its) \<and>
   (candidateOf it p c \<noteq> [] \<longleftrightarrow>
     (\<exists>prev cur. close p = Some prev \<and> close c = Some cur \<and> prev \<noteq> 0
        \<and> jsGe (jsAbs (jsMul (jsDiv (jsSub cur prev) prev) 100)) 3)) \<and>
   (\<forall>ev \<in> set (candidateOf it p c).
      candidateOf it p c = [ev] \<and> c_date ev = date c \<and> c_item ev = item_name it \<and>
      c_itemObj ev = it \<and>
      (\<exists>prev cur. close p = Some prev \<and> close c = Some cur
           \<and> c_change ev = jsMul (jsDiv (jsSub cur prev) prev) 100)) \<and>
   (ev \<in> set (candidateEvents its raw) \<longleftrightarrow>
     (\<exists>it \<in> set its. \<exists>i prev cur.
        0 < i \<and> i < length (orEmpty (map_of raw (item_id it))) \<and>
        close (orEmpty (map_of raw (item_id it)) ! (i - 1)) = Some prev \<and>
        close (orEmpty (map_of raw (item_id it)) ! i) = Some cur \<and> prev \<noteq> 0 \<and>
        jsGe (jsAbs (jsMul (jsDiv (jsSub cur prev) prev) 100)) 3 \<and>
        ev = \<lparr>c_date = date (orEmpty (map_of raw (item_id it)) ! i), c_item = item_name it,
              c_itemObj = it, c_change = jsMul (jsDiv (jsSub cur prev) prev) 100,
              c_type = (if jsGt (jsMul (jsDiv (jsSub cur prev) prev) 100) 0 then Rise else Fall)\<rparr>)) \<and>
   (\<forall>ev \<in> set (candidateEvents its raw).
      jsGe (jsAbs (c_change ev)) 3 \<and>
      (c_type ev = Rise \<longleftrightarrow> jsGt (c_change ev) 0) \<and> (c_type ev = Fall \<longleftrightarrow> jsLt (c_change ev) 0))"
proof (intro conjI ballI)
  show "candidateEvents its raw =
     concat (map (\<lambda>it. concat (map (\<lambda>i. candidateOf it (orEmpty (map_of raw (item_id it)) ! (i - 1))
                                                      (orEmpty (map_of raw (item_id it)) ! i))
                                   [1..<length (orEmpty (map_of raw (item_id it)))])) its)"
    by (rule candidateEvents_concat)
  show "candidateOf it p c \<noteq> [] \<longleftrightarrow>
     (\<exists>prev cur. close p = Some prev \<and> close c = Some cur \<and> prev \<noteq> 0
        \<and> jsGe (jsAbs (jsMul (jsDiv (jsSub cur prev) prev) 100)) 3)"
    by (rule candidateOf_nonempty)
  show "ev \<in> set (candidateEvents its raw) \<longleftrightarrow>
     (\<exists>it \<in> set its. \<exists>i prev cur.
        0 < i \<and> i < length (orEmpty (map_of raw (item_id it))) \<and>
        close (orEmpty (map_of raw (item_id it)) ! (i - 1)) = Some prev \<and>
        close (orEmpty (map_of raw (item_id it)) ! i) = Some cur \<and> prev \<noteq> 0 \<and>
        jsGe (jsAbs (jsMul (jsDiv (jsSub cur prev) prev) 100)) 3 \<and>
        ev = \<lparr>c_date = date (orEmpty (map_of raw (item_id it)) ! i), c_item = item_name it,
              c_itemObj = it, c_change = jsMul (jsDiv (jsSub cur prev) prev) 100,
              c_type = (if jsGt (jsMul (jsDiv (jsSub cur prev) prev) 100) 0 then Rise else Fall)\<rparr>)"
    by (rule candidateEvents_iff)
next
  fix ev assume "ev \<in> set (candidateOf it p c)"
  from candidateOf_member [OF this]
  show "candidateOf it p c = [ev]" "c_date ev = date c" "c_item ev = item_name it" "c_itemObj ev = it"
    "\<exists>prev cur. close p = Some prev \<and> close c = Some cur
           \<and> c_change ev = jsMul (jsDiv (jsSub cur prev) prev) 100"
    by blast+
next
  fix ev assume "ev \<in> set (candidateEvents its raw)"
  then obtain it' p' c' where "ev \<in> set (candidateOf it' p' c')"
    by (blast dest: candidateEvents_member)
  from candidateOf_member [OF this]
  show "jsGe (jsAbs (c_change ev)) 3" "c_type ev = Rise \<longleftrightarrow> jsGt (c_change ev) 0"
    "c_type ev = Fall \<longleftrightarrow> jsLt (c_change ev) 0"
    by blast+
qed

lemmas event_eval = candidateOf_def mkRec_def Let_def pct_eval

text \<open>
  The threshold is tested on the rounded value.  For the closes \<open>3768.54\<close> and \<open>3881.5962\<close>
  the source computes the change 3 and emits a rise; the exact quotient of the two doubles,
  taken times 100, is less than 3.
\<close>

lemma nearThreshold_emitted:
  "scanSeries sp500 nearThreshold =
     [\<lparr>c_date = ''2024-03-05'', c_item = item_name sp500, c_itemObj = sp500,
       c_change = Fin 3, c_type = Rise\<rparr>]"
  "((133370629882223 / 2 ^ 35 - 4143553549738967 / 2 ^ 40) / (4143553549738967 / 2 ^ 40)) * 100
     < (3 :: real)"
  by (simp_all add: nearThreshold_def candidateOf_def mkRec_def jsSub_def rnd_eval)

text \<open>
  Witness for C3: the route's candidates for one instrument with moves of exactly plus and
  minus three percent, which are emitted, and one of 2.09 percent, which is not.
\<close>

theorem candidate_emitted_iff_witness:
  "candidateEvents [sp500] [(''sp500'', threshold)] =
     [\<lparr>c_date = ''2024-03-05'', c_item = item_name sp500, c_itemObj = sp500,
       c_change = Fin 3, c_type = Rise\<rparr>,
      \<lparr>c_date = ''2024-03-06'', c_item = item_name sp500, c_itemObj = sp500,
       c_change = Fin (- 3), c_type = Fall\<rparr>] \<and>
   candidateOf sp500 (mkRec ''2024-03-04'' 10000) (mkRec ''2024-03-05'' 10300) \<noteq> [] \<and>
   candidateOf sp500 (mkRec ''2024-03-06'' 9991) (mkRec ''2024-03-07'' 10200) = []"
proof -
  have len: "[1..<length threshold] = [1, 2, 3]"
    by (simp add: threshold_def upt_rec)
  from candidate_emitted_iff [of "[sp500]" "[(''sp500'', threshold)]" sp500
      "mkRec ''2024-03-04'' 10000" "mkRec ''2024-03-05'' 10300"]
  have "candidateEvents [sp500] [(''sp500'', threshold)] =
      concat (map (\<lambda>i. candidateOf sp500 (threshold ! (i - 1)) (threshold ! i)) [1..<length threshold])"
    and "candidateOf sp500 (mkRec ''2024-03-04'' 10000) (mkRec ''2024-03-05'' 10300) \<noteq> [] \<longleftrightarrow>
     (\<exists>prev cur. close (mkRec ''2024-03-04'' 10000) = Some prev \<and>
        close (mkRec ''2024-03-05'' 10300) = Some cur \<and> prev \<noteq> 0
        \<and> jsGe (jsAbs (jsMul (jsDiv (jsSub cur prev) prev) 100)) 3)"
    by (simp_all add: orEmpty_def sp500_def)
  then show ?thesis
    unfolding len by (simp add: threshold_def event_eval)
qed

lemma eventsLoop_filter:
  "eventsLoop gt m raw cands =
     map (eventOf gt m raw) (filter (\<lambda>c. truthy (newsSymbol (c_itemObj c))) cands)"
  by (induction cands) simp_all

lemma items_newsSymbol: "list_all (\<lambda>it. newsSymbol it \<noteq> Some []) items"
  by (simp add: items_def)

lemma effective_newsSymbol:
  assumes "e \<in> set (getEffectiveItems ov)"
  shows "truthy (newsSymbol e) \<longleftrightarrow> newsSymbol e \<noteq> None"
proof -
  from assms obtain it where it: "it \<in> set items" and "newsSymbol e = newsSymbol it"
    by (auto simp: getEffectiveItems_def mkEffective_def split: option.splits if_splits)
  moreover from it items_newsSymbol have "newsSymbol it \<noteq> Some []"
    by (simp add: list_all_iff)
  ultimately show ?thesis by (cases "newsSymbol it") (simp_all add: truthy_def)
qed

lemma candidateEvents_itemObj:
  assumes "ev \<in> set (candidateEvents its raw)"
  shows "c_itemObj ev \<in> set its"
proof -
  from candidateEvents_member [OF assms] obtain it p c
    where "it \<in> set its" "ev \<in> set (candidateOf it p c)" by blast
  with candidateOf_member [of ev it p c] show ?thesis by simp
qed

text \<open>
  The events of the route are the candidates of the instruments with a news symbol, in
  order, each with its headline and its advisory.
\<close>

lemma eventsOf_filter:
  "eventsOf env st raw news =
     map (eventOf (parseDate env) (buildMarketNewsByDate news) raw)
       (filter (\<lambda>c. newsSymbol (c_itemObj c) \<noteq> None)
          (candidateEvents (getEffectiveItems (symbolOverrides st)) raw))"
proof -
  have "filter (\<lambda>c. truthy (newsSymbol (c_itemObj c)))
          (candidateEvents (getEffectiveItems (symbolOverrides st)) raw)
      = filter (\<lambda>c. newsSymbol (c_itemObj c) \<noteq> None)
          (candidateEvents (getEffectiveItems (symbolOverrides st)) raw)"
  proof (rule filter_cong [OF refl])
    fix c assume "c \<in> set (candidateEvents (getEffectiveItems (symbolOverrides st)) raw)"
    from effective_newsSymbol [OF candidateEvents_itemObj [OF this]]
    show "truthy (newsSymbol (c_itemObj c)) \<longleftrightarrow> newsSymbol (c_itemObj c) \<noteq> None" .
  qed
  then show ?thesis
    by (simp add: eventsOf_def eventsLoop_filter)
qed

text \<open>
  The object \<open>byDate\<close> of the answer: under a date, the events of that date in their order;
  a date without event is not a key.
\<close>

lemma groupByDate_fold:
  fixes evs :: "outEvent list"
  defines "step \<equiv> (\<lambda>(e :: outEvent) byDate.
        (let byDate1 = (if map_of byDate (e_date e) = None
                        then AList.update (e_date e) [] byDate else byDate)
         in AList.update (e_date e) (orEmpty (map_of byDate1 (e_date e)) @ [e]) byDate1))"
  shows "map_of (fold step evs m) d =
     (if filter (\<lambda>e. e_date e = d) evs = [] then map_of m d
      else Some (orEmpty (map_of m d) @ filter (\<lambda>e. e_date e = d) evs))"
    and "distinct (map fst m) \<Longrightarrow> distinct (map fst (fold step evs m))"
proof -
  have one: "map_of (step x m) = (map_of m)(e_date x \<mapsto> orEmpty (map_of m (e_date x)) @ [x])" for x m
    by (rule ext) (simp add: step_def Let_def update_conv' orEmpty_def)
  have dist: "distinct (map fst m) \<Longrightarrow> distinct (map fst (step x m))" for x m
    by (simp add: step_def Let_def distinct_update)
  show "map_of (fold step evs m) d =
     (if filter (\<lambda>e. e_date e = d) evs = [] then map_of m d
      else Some (orEmpty (map_of m d) @ filter (\<lambda>e. e_date e = d) evs))"
  proof (induction evs arbitrary: m)
    case Nil
    then show ?case by simp
  next
    case (Cons x evs)
    show ?case
      using Cons.IH [of "step x m"] by (simp add: one orEmpty_def)
  qed
  show "distinct (map fst m) \<Longrightarrow> distinct (map fst (fold step evs m))"
  proof (induction evs arbitrary: m)
    case Nil
    then show ?case by simp
  next
    case (Cons x evs)
    from Cons.IH [OF dist [OF Cons.prems]] show ?case by simp
  qed
qed

lemma groupByDate_lookup:
  "map_of (groupByDate evs) d =
     (if filter (\<lambda>e. e_date e = d) evs = [] then None else Some (filter (\<lambda>e. e_date e = d) evs))"
  using groupByDate_fold(1) [of evs "[]" d] by (simp add: groupByDate_def orEmpty_def)

lemma groupByDate_distinct: "distinct (map fst (groupByDate evs))"
  using groupByDate_fold(2) [of "[]" evs] by (simp add: groupByDate_def)

lemma eventOf_date: "e_date (eventOf gt m raw c) = c_date c"
  by (simp add: eventOf_def)

lemma filter_events_date:
  "filter (\<lambda>e. e_date e = d) (map (eventOf gt m raw) (filter P cands))
     = map (eventOf gt m raw) (filter (\<lambda>c. c_date c = d \<and> P c) cands)"
  by (induction cands) (simp_all add: eventOf_date)

text \<open>
  Claim C4.  The event route, for a valid period, answers with the success object; with
  \<open>raw\<close> the data of the month and \<open>news\<close> the market news it has fetched, the events it
  lists under a date are exactly the candidates of that date whose instrument has a news
  symbol, in the order of the candidates, each as one event with its headline and its
  advisory.  So no candidate of an instrument whose news symbol is \<open>null\<close> gives an event,
  however large its move, and every candidate of an instrument with a news symbol gives one,
  whatever the series and the news.  No date is a key twice and no date has an empty list.
\<close>

theorem events_news_gate:
  assumes "validateYearMonth env year month = Some (y, m)"
    and "getMonthlyData env y m (refresh = Some ''1'') st = ((raw, failed), st1)"
    and "fetchMarketNews env (formatYMD env (fst (getMonthRange env y m)))
           (formatYMD env (snd (getMonthRange env y m))) (refresh = Some ''1'') st1 = (news, st2)"
  shows "\<exists>byDate. apiEvents env year month refresh st = (EventsOk y m byDate failed, st2) \<and>
     distinct (map fst byDate) \<and>
     (\<forall>d. map_of byDate d \<noteq> Some []) \<and>
     (\<forall>d. orEmpty (map_of byDate d) =
          map (eventOf (parseDate env) (buildMarketNewsByDate news) raw)
            (filter (\<lambda>c. c_date c = d \<and> newsSymbol (c_itemObj c) \<noteq> None)
               (candidateEvents (getEffectiveItems (symbolOverrides st1)) raw)))"
proof -
  let ?evs = "eventsOf env st1 raw news"
  obtain a b where range: "getMonthRange env y m = (a, b)"
    by (cases "getMonthRange env y m")
  with assms(3) have "fetchMarketNews env (formatYMD env a) (formatYMD env b)
      (refresh = Some ''1'') st1 = (news, st2)"
    by simp
  with assms(1,2) range
  have route: "apiEvents env year month refresh st = (EventsOk y m (groupByDate ?evs) failed, st2)"
    by (simp add: apiEvents_def Let_def)
  have "orEmpty (map_of (groupByDate ?evs) d) =
          map (eventOf (parseDate env) (buildMarketNewsByDate news) raw)
            (filter (\<lambda>c. c_date c = d \<and> newsSymbol (c_itemObj c) \<noteq> None)
               (candidateEvents (getEffectiveItems (symbolOverrides st1)) raw))" for d
    unfolding groupByDate_lookup
    by (simp add: orEmpty_def eventsOf_filter filter_events_date)
  moreover have "map_of (groupByDate ?evs) d \<noteq> Some []" for d
    by (simp add: groupByDate_lookup)
  ultimately show ?thesis
    using route groupByDate_distinct [of ?evs] by blast
qed

lemma effective_plain: "getEffectiveItems [] = map (\<lambda>it. mkEffective it (item_symbol it) (item_name it) False) items"
  by (simp add: getEffectiveItems_def)


lemma scan_spec:
  fixes gt e
  defines "E \<equiv> \<lambda>m x h. \<exists>d hs. (d, h # hs) \<in> set m \<and> dayDiff gt d e = Some x \<and> x \<le> 14"
  shows "scanHeadlines gt e m (b, bd) = (b', bd') \<Longrightarrow>
     (bd' = None \<longrightarrow> bd = None \<and> b' = b \<and> (\<forall>x h. \<not> E m x h)) \<and>
     (\<forall>x'. bd' = Some x' \<longrightarrow>
        ((bd = Some x' \<and> b' = b) \<or> (\<exists>h. E m x' h \<and> b' = Some h)) \<and>
        (\<forall>x. bd = Some x \<longrightarrow> x' \<le> x) \<and>
        (\<forall>x h. E m x h \<longrightarrow> x' \<le> x))"
proof (induction m arbitrary: b bd)
  case Nil
  then show ?case by (auto simp: E_def)
next
  case (Cons p m)
  obtain d hs where p: "p = (d, hs)" by (cases p)
  have E_Cons: "E (p # m) x h \<longleftrightarrow>
      (\<exists>hs'. hs = h # hs' \<and> dayDiff gt d e = Some x \<and> x \<le> 14) \<or> E m x h" for x h
    unfolding E_def p by auto
  show ?case
  proof (cases hs)
    case Nil
    with Cons.prems p have "scanHeadlines gt e m (b, bd) = (b', bd')" by simp
    from Cons.IH [OF this] show ?thesis unfolding E_Cons using Nil by simp
  next
    case (Cons h hs')
    note hs = this
    show ?thesis
    proof (cases "dayDiff gt d e")
      case None
      with Cons.prems p hs have "scanHeadlines gt e m (b, bd) = (b', bd')" by simp
      from Cons.IH [OF this] show ?thesis unfolding E_Cons using None by simp
    next
      case (Some diff)
      show ?thesis
      proof (cases "diff \<le> 14 \<and> (case bd of None \<Rightarrow> True | Some x \<Rightarrow> diff < x)")
        case True
        with Cons.prems p hs Some
        have "scanHeadlines gt e m (Some h, Some diff) = (b', bd')" by simp
        from Cons.IH [OF this]
        have ih: "bd' \<noteq> None"
          "\<And>x'. bd' = Some x' \<Longrightarrow>
            ((diff = x' \<and> b' = Some h) \<or> (\<exists>h. E m x' h \<and> b' = Some h)) \<and> x' \<le> diff \<and>
            (\<forall>x h. E m x h \<longrightarrow> x' \<le> x)"
          by auto
        from ih(1) obtain x' where x': "bd' = Some x'" by auto
        from ih(2) [OF x'] have a: "(diff = x' \<and> b' = Some h) \<or> (\<exists>h. E m x' h \<and> b' = Some h)"
          and b: "x' \<le> diff" and c: "\<forall>x h. E m x h \<longrightarrow> x' \<le> x" by auto
        from a True Some hs have "\<exists>h. E (p # m) x' h \<and> b' = Some h"
          unfolding E_Cons by auto
        moreover from b True have "\<forall>x. bd = Some x \<longrightarrow> x' \<le> x" by (cases bd) auto
        moreover from b c Some have "\<forall>x h. E (p # m) x h \<longrightarrow> x' \<le> x"
          unfolding E_Cons by auto
        ultimately show ?thesis using x' by simp
      next
        case False
        with Cons.prems p hs Some
        have "scanHeadlines gt e m (b, bd) = (b', bd')" by auto
        note ih = Cons.IH [OF this]
        show ?thesis
        proof (cases "diff \<le> 14")
          case far: False
          then have "E (p # m) x h' \<longleftrightarrow> E m x h'" for x h'
            unfolding E_Cons using Some by auto
          with ih show ?thesis by simp
        next
          case near: True
          with False obtain x0 where x0: "bd = Some x0" "x0 \<le> diff" by (cases bd) auto
          with ih obtain x' where x': "bd' = Some x'" by (cases bd') auto
          from ih x' x0 have a: "(bd = Some x' \<and> b' = b) \<or> (\<exists>h. E m x' h \<and> b' = Some h)"
            and b: "x' \<le> x0" and c: "\<forall>x h. E m x h \<longrightarrow> x' \<le> x" by auto
          from a have "(bd = Some x' \<and> b' = b) \<or> (\<exists>h. E (p # m) x' h \<and> b' = Some h)"
            unfolding E_Cons by auto
          moreover from b x0 have "\<forall>x. bd = Some x \<longrightarrow> x' \<le> x" by auto
          moreover from b c x0 Some have "\<forall>x h. E (p # m) x h \<longrightarrow> x' \<le> x"
            unfolding E_Cons by auto
          ultimately show ?thesis using x' by simp
        qed
      qed
    qed
  qed
qed

lemma eventsLoop_member:
  "c \<in> set cands \<Longrightarrow> truthy (newsSymbol (c_itemObj c)) \<Longrightarrow> eventOf gt m raw c \<in> set (eventsLoop gt m raw cands)"
  by (simp add: eventsLoop_filter)

text \<open>
  Claim C5.  A headline of the event date itself is taken when the map has one.  Every
  headline returned is the first headline of an entry of the map whose date is the event date
  or at most 14 days from it.  When the map has no headline of the event date, the result is
  \<open>null\<close> exactly when no entry with a headline lies within 14 days, and otherwise the first
  headline of an entry whose distance is the least of all entries.  The event of a candidate
  with a news symbol is emitted in either case, with the result as its headline.
\<close>

theorem headline_within_window:
  "(\<forall>h hs. map_of m e = Some (h # hs) \<longrightarrow> getMarketHeadlineForDate gt m e = Some h) \<and>
   (\<forall>h. getMarketHeadlineForDate gt m e = Some h \<longrightarrow>
      (\<exists>d hs. (d, h # hs) \<in> set m \<and> (d = e \<or> (\<exists>x. dayDiff gt d e = Some x \<and> x \<le> 14)))) \<and>
   ((\<forall>h hs. map_of m e \<noteq> Some (h # hs)) \<longrightarrow>
      (case getMarketHeadlineForDate gt m e of
         None \<Rightarrow> \<forall>d h hs x. (d, h # hs) \<in> set m \<longrightarrow> dayDiff gt d e = Some x \<longrightarrow> \<not> x \<le> 14
       | Some h \<Rightarrow>
           \<exists>d hs x. (d, h # hs) \<in> set m \<and> dayDiff gt d e = Some x \<and> x \<le> 14 \<and>
             (\<forall>d' h' hs' x'. (d', h' # hs') \<in> set m \<longrightarrow> dayDiff gt d' e = Some x' \<longrightarrow> x \<le> x'))) \<and>
   (\<forall>c \<in> set cands. truthy (newsSymbol (c_itemObj c)) \<longrightarrow>
      eventOf gt m raw c \<in> set (eventsLoop gt m raw cands) \<and>
      newsHeadline (eventOf gt m raw c) = getMarketHeadlineForDate gt m (c_date c))"
proof -
  obtain b' bd' where scan: "scanHeadlines gt e m (None, None) = (b', bd')"
    by (cases "scanHeadlines gt e m (None, None)")
  note spec = scan_spec [OF scan]
  have noexact: "getMarketHeadlineForDate gt m e = b'" if "\<forall>h hs. map_of m e \<noteq> Some (h # hs)"
  proof (cases "map_of m e")
    case None
    then show ?thesis by (simp add: getMarketHeadlineForDate_def scan)
  next
    case (Some hs)
    with that have "hs = []" by (cases hs) auto
    with Some show ?thesis by (simp add: getMarketHeadlineForDate_def scan)
  qed
  have scanned: "(case b' of
         None \<Rightarrow> \<forall>d h hs x. (d, h # hs) \<in> set m \<longrightarrow> dayDiff gt d e = Some x \<longrightarrow> \<not> x \<le> 14
       | Some h \<Rightarrow>
           \<exists>d hs x. (d, h # hs) \<in> set m \<and> dayDiff gt d e = Some x \<and> x \<le> 14 \<and>
             (\<forall>d' h' hs' x'. (d', h' # hs') \<in> set m \<longrightarrow> dayDiff gt d' e = Some x' \<longrightarrow> x \<le> x'))"
  proof (cases bd')
    case None
    with spec have "b' = None"
      "\<forall>d h hs x. (d, h # hs) \<in> set m \<longrightarrow> dayDiff gt d e = Some x \<longrightarrow> \<not> x \<le> 14"
      by auto
    then show ?thesis by simp
  next
    case (Some x)
    with spec obtain d h hs where w: "(d, h # hs) \<in> set m" "dayDiff gt d e = Some x" "x \<le> 14"
        "b' = Some h"
      by auto
    from Some spec
    have least: "\<forall>d' h' hs' x'. (d', h' # hs') \<in> set m \<longrightarrow> dayDiff gt d' e = Some x' \<longrightarrow> x' \<le> 14 \<longrightarrow> x \<le> x'"
      by blast
    have "x \<le> x'" if "(d', h' # hs') \<in> set m" "dayDiff gt d' e = Some x'" for d' h' hs' x'
    proof (cases "x' \<le> 14")
      case True
      with least that show ?thesis by blast
    next
      case False
      with w(3) show ?thesis by simp
    qed
    then have "\<forall>d' h' hs' x'. (d', h' # hs') \<in> set m \<longrightarrow> dayDiff gt d' e = Some x' \<longrightarrow> x \<le> x'"
      by blast
    with w(1-3) have "\<exists>d hs x. (d, h # hs) \<in> set m \<and> dayDiff gt d e = Some x \<and> x \<le> 14 \<and>
             (\<forall>d' h' hs' x'. (d', h' # hs') \<in> set m \<longrightarrow> dayDiff gt d' e = Some x' \<longrightarrow> x \<le> x')"
      by blast
    with w(4) show ?thesis by (simp only: option.case)
  qed
  show ?thesis
  proof (intro conjI allI impI ballI)
    fix h hs assume "map_of m e = Some (h # hs)"
    then show "getMarketHeadlineForDate gt m e = Some h"
      by (simp add: getMarketHeadlineForDate_def)
  next
    fix h assume res: "getMarketHeadlineForDate gt m e = Some h"
    show "\<exists>d hs. (d, h # hs) \<in> set m \<and> (d = e \<or> (\<exists>x. dayDiff gt d e = Some x \<and> x \<le> 14))"
    proof (cases "\<forall>h hs. map_of m e \<noteq> Some (h # hs)")
      case True
      with noexact res have "b' = Some h" by simp
      with scanned show ?thesis by auto
    next
      case False
      then obtain h' hs' where ex: "map_of m e = Some (h' # hs')" by auto
      with res have "h' = h" by (simp add: getMarketHeadlineForDate_def)
      with ex have "(e, h # hs') \<in> set m" by (auto dest: map_of_SomeD)
      then show ?thesis by blast
    qed
  next
    assume "\<forall>h hs. map_of m e \<noteq> Some (h # hs)"
    from noexact [OF this] scanned
    show "case getMarketHeadlineForDate gt m e of
         None \<Rightarrow> \<forall>d h hs x. (d, h # hs) \<in> set m \<longrightarrow> dayDiff gt d e = Some x \<longrightarrow> \<not> x \<le> 14
       | Some h \<Rightarrow>
           \<exists>d hs x. (d, h # hs) \<in> set m \<and> dayDiff gt d e = Some x \<and> x \<le> 14 \<and>
             (\<forall>d' h' hs' x'. (d', h' # hs') \<in> set m \<longrightarrow> dayDiff gt d' e = Some x' \<longrightarrow> x \<le> x')"
      by simp
  next
    fix c assume "c \<in> set cands" "truthy (newsSymbol (c_itemObj c))"
    then show "eventOf gt m raw c \<in> set (eventsLoop gt m raw cands)"
      by (rule eventsLoop_member)
  next
    fix c
    show "newsHeadline (eventOf gt m raw c) = getMarketHeadlineForDate gt m (c_date c)"
      by (simp add: eventOf_def)
  qed
qed



lemma marchNews_eval:
  "buildMarketNewsByDate demoNews =
     [(''2024-03-25'', [''Late rally'']), (''2024-03-01'', [''Fed holds rates'', ''Chip stocks slide''])]"
  by (simp add: buildMarketNewsByDate_def demoNews_def orEmpty_def Let_def)

lemma lateNews_eval: "buildMarketNewsByDate lateNews = [(''2024-03-25'', [''Late rally''])]"
  by (simp add: buildMarketNewsByDate_def lateNews_def orEmpty_def Let_def)

lemma march_diff:
  "dayDiff march ''2024-03-25'' ''2024-03-06'' = Some 19"
  "dayDiff march ''2024-03-01'' ''2024-03-06'' = Some 5"
  by (simp_all add: dayDiff_def march_def)

lemma headline_eval:
  "getMarketHeadlineForDate march (buildMarketNewsByDate demoNews) ''2024-03-01'' = Some ''Fed holds rates''"
  "getMarketHeadlineForDate march (buildMarketNewsByDate demoNews) ''2024-03-06'' = Some ''Fed holds rates''"
  "getMarketHeadlineForDate march (buildMarketNewsByDate lateNews) ''2024-03-06'' = None"
  by (simp_all add: marchNews_eval lateNews_eval getMarketHeadlineForDate_def march_diff)

text \<open>
  Witness for C5: a headline of the event date; with none, the nearer of two dates (5 days
  against 19); and no headline when the only news is 19 days away.
\<close>

theorem headline_within_window_witness:
  "map_of (buildMarketNewsByDate demoNews) ''2024-03-01'' = Some [''Fed holds rates'', ''Chip stocks slide''] \<and>
   getMarketHeadlineForDate march (buildMarketNewsByDate demoNews) ''2024-03-01'' = Some ''Fed holds rates'' \<and>
   map_of (buildMarketNewsByDate demoNews) ''2024-03-06'' = None \<and>
   dayDiff march ''2024-03-01'' ''2024-03-06'' = Some 5 \<and>
   dayDiff march ''2024-03-25'' ''2024-03-06'' = Some 19 \<and>
   getMarketHeadlineForDate march (buildMarketNewsByDate demoNews) ''2024-03-06'' = Some ''Fed holds rates'' \<and>
   getMarketHeadlineForDate march (buildMarketNewsByDate lateNews) ''2024-03-06'' = None"
proof -
  have exact: "map_of (buildMarketNewsByDate demoNews) ''2024-03-01''
      = Some (''Fed holds rates'' # [''Chip stocks slide''])"
    by (simp add: marchNews_eval)
  from headline_within_window [of "buildMarketNewsByDate demoNews" "''2024-03-01''" march "[]" "[]"] exact
  have "getMarketHeadlineForDate march (buildMarketNewsByDate demoNews) ''2024-03-01'' = Some ''Fed holds rates''"
    by blast
  moreover have "map_of (buildMarketNewsByDate demoNews) ''2024-03-06'' = None"
    by (simp add: marchNews_eval)
  ultimately show ?thesis
    using exact by (simp add: march_diff headline_eval)
qed

lemma sortByDate_scenario: "sortByDate scenario = scenario"
  by (simp add: sortByDate_def scenario_def mkRec_def)

lemma scenario_stats:
  "sellStatsOf scenario ''2024-03-06'' =
     Some \<lparr>st_curr = 88, st_monthFirst = 100, st_monthHigh = 100, st_consecDown = 2,
           st_cumulChange = Fin (- 12), st_fromHigh = Fin (- 12)\<rparr>"
proof -
  have closes: "List.map_filter close scenario = [100, 95, 88]"
    by (simp add: scenario_def mkRec_def List.map_filter_simps)
  have idx: "findIndex (\<lambda>d. date d = ''2024-03-06'') scenario = Some 2"
    by (simp add: scenario_def mkRec_def)
  have down: "consecDown [100, 95, 88] 2 = 2"
    by (simp add: numeral_2_eq_2)
  have hi: "fold max (take (Suc 2) [100, 95, 88 :: real]) 100 = 100"
    by (simp add: numeral_2_eq_2)
  have len: "length scenario = 3" by (simp add: scenario_def)
  show ?thesis
    unfolding sellStatsOf_def Let_def sortByDate_scenario closes idx
    by (simp add: len down hi pctOf_def pct_eval)
qed

text \<open>
  Claim C6.  For the closes 100, 95, 88 on three consecutive days the candidate of the third
  day has the change that the source computes for \<open>(88 - 95) / 95 * 100\<close>, the double
  \<open>-7.368421052631578\<close>, which lies between \<open>- 7.37\<close> and \<open>- 7.36\<close> and within \<open>2^-49\<close> of
  the exact quotient, and is a fall; the statistics of that date are two consecutive falls
  and a cumulative change of \<open>- 12\<close>; the advisory is the first of the table of falls.
\<close>

theorem scenario_strongest_sell:
  "scanSeries sp500 scenario =
     [\<lparr>c_date = ''2024-03-05'', c_item = item_name sp500, c_itemObj = sp500,
       c_change = Fin (- 5), c_type = Fall\<rparr>,
      \<lparr>c_date = ''2024-03-06'', c_item = item_name sp500, c_itemObj = sp500,
       c_change = jsMul (jsDiv (jsSub 88 95) 95) 100, c_type = Fall\<rparr>] \<and>
   jsMul (jsDiv (jsSub 88 95) 95) 100 = Fin (- (8296104576735123 / 2 ^ 50)) \<and>
   - (737 / 100) < (- (8296104576735123 / 2 ^ 50) :: real) \<and>
   (- (8296104576735123 / 2 ^ 50) :: real) < - (736 / 100) \<and>
   \<bar>(- (8296104576735123 / 2 ^ 50) :: real) - (88 - 95) / 95 * 100\<bar> < 1 / 2 ^ 49 \<and>
   sellStatsOf scenario ''2024-03-06'' =
     Some \<lparr>st_curr = 88, st_monthFirst = 100, st_monthHigh = 100, st_consecDown = 2,
           st_cumulChange = jsMul (jsDiv (jsSub 88 100) 100) 100, st_fromHigh = Fin (- 12)\<rparr> \<and>
   jsMul (jsDiv (jsSub 88 100) 100) 100 = Fin (- 12) \<and>
   getSellTimingWarning scenario ''2024-03-06'' (jsMul (jsDiv (jsSub 88 95) 95) 100) Fall
     = ImmediateSell"
  by (simp add: scenario_stats getSellTimingWarning_def sellDecision_def pct_eval)
     (simp add: scenario_def candidateOf_def mkRec_def Let_def pct_eval)

text \<open>Witness for C6: the event of the third day as the route builds it, with a headline of that day.\<close>

theorem scenario_strongest_sell_witness:
  "eventOf march [(''2024-03-06'', [''Stocks tumble''])] [(''sp500'', scenario)]
     \<lparr>c_date = ''2024-03-06'', c_item = item_name sp500, c_itemObj = sp500,
      c_change = jsMul (jsDiv (jsSub 88 95) 95) 100, c_type = Fall\<rparr> =
   \<lparr>e_date = ''2024-03-06'', e_item = item_name sp500,
    e_change = Fin (- (8296104576735123 / 2 ^ 50)), e_type = Fall,
    newsHeadline = Some ''Stocks tumble'', sellWarning = ImmediateSell\<rparr>"
proof -
  from scenario_strongest_sell
  have c: "jsMul (jsDiv (jsSub 88 95) 95) 100 = Fin (- (8296104576735123 / 2 ^ 50))"
    and w: "getSellTimingWarning scenario ''2024-03-06'' (jsMul (jsDiv (jsSub 88 95) 95) 100) Fall
      = ImmediateSell"
    by blast+
  have "getSellTimingWarning scenario ''2024-03-06'' (Fin (- (8296104576735123 / 2 ^ 50))) Fall
      = ImmediateSell"
    using w unfolding c .
  then show ?thesis
    unfolding c by (simp add: eventOf_def getMarketHeadlineForDate_def orEmpty_def sp500_def)
qed


lemma getMonthlyData_hit:
  "getCachedMonthly st year month = Some (cy, cm, cdata) \<Longrightarrow>
   getMonthlyData env year month False st = ((cdata, []), st)"
  by (simp add: getMonthlyData_def Let_def)

lemma getCachedMonthly_update:
  "getCachedMonthly
     (scheduleSaveDailyCache (st\<lparr>dailyFileCache := AList.update (getPeriodKey year month)
         \<lparr>s_year = year, s_month = month, s_data = Some d, s_updatedAt = t\<rparr> (dailyFileCache st)\<rparr>))
     year month = Some (year, month, d)"
  by (simp add: getCachedMonthly_def scheduleSaveDailyCache_def update_conv')

text \<open>What \<open>getMonthlyData\<close> does when it does not answer from the store.\<close>

lemma getMonthlyData_miss:
  assumes "forceRefresh \<or> getCachedMonthly st year month = None"
  shows "\<exists>raw failed st1 toSave.
      fetchAllHistorical env (getEffectiveItems (symbolOverrides st))
        (localTime env year (month - 1) 1)
        (if (case localFields env (clock st) of (y, m, dd) \<Rightarrow> year = y \<and> month = int m + 1)
         then clock st else localTime env year month 0) st = (raw, failed, st1) \<and>
      toSave = (case (if forceRefresh then getCachedMonthly st year month else None) of
                  Some (cy, cm, cdata) \<Rightarrow>
                    mergeMonthlyData cdata
                      (filterToMonth env (formatYMD env (localTime env year (month - 1) 1))
                        (formatYMD env (if (case localFields env (clock st) of (y, m, dd) \<Rightarrow>
                             year = y \<and> month = int m + 1) then clock st
                           else localTime env year month 0)) raw)
                | None \<Rightarrow> filterToMonth env (formatYMD env (localTime env year (month - 1) 1))
                        (formatYMD env (if (case localFields env (clock st) of (y, m, dd) \<Rightarrow>
                             year = y \<and> month = int m + 1) then clock st
                           else localTime env year month 0)) raw) \<and>
      getMonthlyData env year month forceRefresh st =
        ((toSave, failed),
         scheduleSaveDailyCache (st1\<lparr>dailyFileCache := AList.update (getPeriodKey year month)
           \<lparr>s_year = year, s_month = month, s_data = Some toSave, s_updatedAt = clock st1\<rparr>
           (dailyFileCache st1)\<rparr>))"
proof -
  obtain raw failed st1 where f: "fetchAllHistorical env (getEffectiveItems (symbolOverrides st))
        (localTime env year (month - 1) 1)
        (if (case localFields env (clock st) of (y, m, dd) \<Rightarrow> year = y \<and> month = int m + 1)
         then clock st else localTime env year month 0) st = (raw, failed, st1)"
    by (metis prod_cases3)
  have none: "(if forceRefresh then None else getCachedMonthly st year month) = None"
    using assms by auto
  show ?thesis
    using f unfolding getMonthlyData_def Let_def getMonthRange_def none
    by (auto split: option.splits)
qed

lemma getMonthlyData_cached_after:
  assumes "getMonthlyData env year month forceRefresh st = ((d, failed), st1)"
  shows "\<exists>cy cm. getCachedMonthly st1 year month = Some (cy, cm, d)"
proof (cases "forceRefresh \<or> getCachedMonthly st year month = None")
  case True
  from getMonthlyData_miss [OF True, of env] assms show ?thesis
    by (auto simp: getCachedMonthly_update)
next
  case False
  then obtain cy cm cd where c: "getCachedMonthly st year month = Some (cy, cm, cd)" "\<not> forceRefresh"
    by (metis option.exhaust prod_cases3)
  from getMonthlyData_hit [OF c(1), of env] assms c(2) show ?thesis
    using c(1) by auto
qed

text \<open>
  Claim C7.  When the store holds a snapshot of the period, \<open>getMonthlyData\<close> without forced
  refresh returns its data and no failure, and leaves the whole state as it is: the log of
  requests, both caches, the store.  Hence after any first call without forced refresh a
  second one, whatever the network would answer, returns the data of the first, and the log
  of requests stays as the first call left it.
\<close>

theorem getMonthlyData_cache_hit:
  "(\<forall>cy cm cdata. getCachedMonthly st year month = Some (cy, cm, cdata) \<longrightarrow>
      getMonthlyData env year month False st = ((cdata, []), st)) \<and>
   (\<forall>d failed st1. getMonthlyData env year month False st = ((d, failed), st1) \<longrightarrow>
      getMonthlyData env' year month False st1 = ((d, []), st1) \<and>
      requests (snd (getMonthlyData env' year month False st1)) = requests st1)"
proof (intro conjI allI impI)
  fix cy cm cdata
  assume "getCachedMonthly st year month = Some (cy, cm, cdata)"
  then show "getMonthlyData env year month False st = ((cdata, []), st)"
    by (rule getMonthlyData_hit)
next
  fix d failed st1
  assume "getMonthlyData env year month False st = ((d, failed), st1)"
  from getMonthlyData_cached_after [OF this] obtain cy cm
    where "getCachedMonthly st1 year month = Some (cy, cm, d)" by blast
  from getMonthlyData_hit [OF this]
  show "getMonthlyData env' year month False st1 = ((d, []), st1)"
    "requests (snd (getMonthlyData env' year month False st1)) = requests st1"
    by simp_all
qed


lemma key_2024_03: "getPeriodKey 2024 3 = ''2024-03''"
  by (simp add: getPeriodKey_def showInt_def showNat.simps padStart2_def digitChar_def)

lemma marchServer_cached: "getCachedMonthly marchServer 2024 3 = Some (2024, 3, marchData)"
  by (simp add: getCachedMonthly_def key_2024_03 marchServer_def emptyServer_def)

text \<open>
  Witness for C7: the server with the snapshot of March 2024 answers from the store, and
  sends no request.
\<close>

theorem getMonthlyData_cache_hit_witness:
  "getCachedMonthly marchServer 2024 3 = Some (2024, 3, marchData) \<and>
   getMonthlyData demoEnv 2024 3 False marchServer = ((marchData, []), marchServer) \<and>
   requests (snd (getMonthlyData demoEnv 2024 3 False marchServer)) = []"
proof -
  from getMonthlyData_cache_hit [of marchServer 2024 3 demoEnv demoEnv] marchServer_cached
  have "getMonthlyData demoEnv 2024 3 False marchServer = ((marchData, []), marchServer)"
    by blast
  then show ?thesis
    using marchServer_cached by (simp add: marchServer_def emptyServer_def)
qed



lemma fetchLoop_step:
  "fetchLoop env s e (it # rest) (r, f, st) =
     (case fetchChartFromYahoo env (item_symbol it) s e st of (res, st1) \<Rightarrow>
        fetchLoop env s e rest
          (AList.update (item_id it) (case res of Inl err \<Rightarrow> [] | Inr d \<Rightarrow> d) r,
           (case res of Inl err \<Rightarrow> f @ [\<lparr>f_name = item_name it, f_reason = err\<rparr>] | Inr d \<Rightarrow> f),
           delay 500 st1))"
  by (auto split: prod.splits sum.splits)

lemma fetchLoop_failed:
  "fetchLoop env s e its (r, f, st) = (r', f', st') \<Longrightarrow>
     length f' \<le> length f + length its \<and>
     (length f' = length f + length its \<longrightarrow>
        (\<forall>k. map_of r' k = (if k \<in> item_id ` set its then Some [] else map_of r k)))"
proof (induction its arbitrary: r f st)
  case Nil
  then show ?case by simp
next
  case (Cons it rest)
  obtain res st1 where fc: "fetchChartFromYahoo env (item_symbol it) s e st = (res, st1)"
    by (cases "fetchChartFromYahoo env (item_symbol it) s e st")
  show ?case
  proof (cases res)
    case (Inl err)
    with Cons.prems fc
    have "fetchLoop env s e rest (AList.update (item_id it) [] r,
            f @ [\<lparr>f_name = item_name it, f_reason = err\<rparr>], delay 500 st1) = (r', f', st')"
      by (simp add: fetchLoop_step del: fetchLoop.simps)
    from Cons.IH [OF this] show ?thesis by (auto simp: update_conv')
  next
    case (Inr d)
    with Cons.prems fc
    have "fetchLoop env s e rest (AList.update (item_id it) d r, f, delay 500 st1) = (r', f', st')"
      by (simp add: fetchLoop_step del: fetchLoop.simps)
    from Cons.IH [OF this] show ?thesis by auto
  qed
qed

lemma filterToMonth_lookup:
  "map_of (filterToMonth env a b raw) k =
     map_option (\<lambda>xs. sortByDate (filter (\<lambda>d. sanitizeDate env (date d) \<noteq> None
                                  \<and> date d \<ge> a \<and> date d \<le> b) xs)) (map_of raw k)"
proof -
  have k: "k \<in> set (map fst raw) \<longleftrightarrow> map_of raw k \<noteq> None"
    by (simp add: map_of_eq_None_iff)
  show ?thesis
    unfolding filterToMonth_def map_of_fold_update k
    by (auto simp: orEmpty_def)
qed

text \<open>
  Claim C10.  With no snapshot of the period in the store, \<open>getMonthlyData\<close> (forced or not)
  returns with a snapshot of the period written whose data is the data returned.  Every
  instrument's fetch has failed when the list of failures has one entry for each instrument;
  then the snapshot maps every instrument to the empty series.  A later call without forced
  refresh returns that data with no failure and leaves the state, the log of requests
  included, as it is.
\<close>

theorem getMonthlyData_writes_snapshot:
  "getCachedMonthly st year month = None \<longrightarrow>
   (\<forall>d failed st1. getMonthlyData env year month forceRefresh st = ((d, failed), st1) \<longrightarrow>
      getCachedMonthly st1 year month = Some (year, month, d) \<and>
      (length failed = length (getEffectiveItems (symbolOverrides st)) \<longrightarrow>
         (\<forall>it \<in> set (getEffectiveItems (symbolOverrides st)). map_of d (item_id it) = Some [])) \<and>
      getMonthlyData env' year month False st1 = ((d, []), st1) \<and>
      requests (snd (getMonthlyData env' year month False st1)) = requests st1)"
proof (intro impI allI)
  fix d failed st1
  assume none: "getCachedMonthly st year month = None"
    and run: "getMonthlyData env year month forceRefresh st = ((d, failed), st1)"
  let ?its = "getEffectiveItems (symbolOverrides st)"
  from getMonthlyData_miss [of forceRefresh st year month env] none
  obtain raw failed' st0 a b s e where
    batch: "fetchAllHistorical env ?its s e st = (raw, failed', st0)"
    and res: "getMonthlyData env year month forceRefresh st =
        ((filterToMonth env a b raw, failed'),
         scheduleSaveDailyCache (st0\<lparr>dailyFileCache := AList.update (getPeriodKey year month)
           \<lparr>s_year = year, s_month = month, s_data = Some (filterToMonth env a b raw),
            s_updatedAt = clock st0\<rparr> (dailyFileCache st0)\<rparr>))"
    by auto
  from res run have d: "d = filterToMonth env a b raw" and f: "failed = failed'"
    and st1: "st1 = scheduleSaveDailyCache (st0\<lparr>dailyFileCache := AList.update (getPeriodKey year month)
           \<lparr>s_year = year, s_month = month, s_data = Some (filterToMonth env a b raw),
            s_updatedAt = clock st0\<rparr> (dailyFileCache st0)\<rparr>)"
    by simp_all
  have cached: "getCachedMonthly st1 year month = Some (year, month, d)"
    unfolding st1 d by (rule getCachedMonthly_update)
  have empty: "\<forall>it \<in> set ?its. map_of d (item_id it) = Some []" if "length failed = length ?its"
  proof -
    from batch have "fetchLoop env s e ?its ([], [], st) = (raw, failed', st0)"
      by (simp add: fetchAllHistorical_def)
    from fetchLoop_failed [OF this] that f
    have "\<forall>k. map_of raw k = (if k \<in> item_id ` set ?its then Some [] else None)" by simp
    then show ?thesis by (simp add: d filterToMonth_lookup sortByDate_def)
  qed
  from getMonthlyData_hit [OF cached, of env'] cached empty
  show "getCachedMonthly st1 year month = Some (year, month, d) \<and>
      (length failed = length ?its \<longrightarrow> (\<forall>it \<in> set ?its. map_of d (item_id it) = Some [])) \<and>
      getMonthlyData env' year month False st1 = ((d, []), st1) \<and>
      requests (snd (getMonthlyData env' year month False st1)) = requests st1"
    by simp
qed



text \<open>
  An attempt fails when the answer settles to an error or its body is not JSON.  When every
  attempt of the retry loop fails, the fetch ends with the error \<open>FetchExhausted\<close>; it has sent
  one request for each attempt and changed nothing but the clock.
\<close>

lemma tryFetch_fail:
  assumes "\<forall>k < length rs. attemptFails env req (length (requests st) + k)"
  shows "\<exists>st'. tryFetch env req key rs st = (Inl FetchExhausted, st') \<and>
     cache st' = cache st \<and> symbolOverrides st' = symbolOverrides st \<and>
     dailyFileCache st' = dailyFileCache st \<and> newsCache st' = newsCache st \<and>
     cacheSaveScheduled st' = cacheSaveScheduled st \<and>
     requests st' = requests st @ replicate (length rs) req"
  using assms
proof (induction rs arbitrary: st)
  case Nil
  then show ?case by simp
next
  case (Cons r rs)
  obtain res lat where up: "upstream env req (length (requests st)) = (res, lat)"
    by (cases "upstream env req (length (requests st))")
  define st1 where "st1 = st\<lparr>clock := clock st + lat, requests := requests st @ [req]\<rparr>"
  define st2 where "st2 = delay ((int r + 1) * 2000) st1"
  have get: "httpGet env req st = (res, st1)"
    by (simp add: httpGet_def up st1_def)
  from Cons.prems have "attemptFails env req (length (requests st) + 0)" by blast
  then have fail: "(case settle res of Inl e \<Rightarrow> Inl e
               | Inr html \<Rightarrow> (case jsonParse env html of None \<Rightarrow> Inl MalformedResponse
                              | Some json \<Rightarrow> Inr json)) \<noteq> Inr j" for j
    by (auto simp: attemptFails_def up split: sum.splits)
  have step: "tryFetch env req key (r # rs) st = tryFetch env req key rs st2"
    using fail by (simp add: get st2_def split: sum.splits)
  have "\<forall>k < length rs. attemptFails env req (length (requests st2) + k)"
  proof (intro allI impI)
    fix k assume "k < length rs"
    then have "Suc k < length (r # rs)" by simp
    with Cons.prems have "attemptFails env req (length (requests st) + Suc k)" by blast
    then show "attemptFails env req (length (requests st2) + k)"
      by (simp add: st2_def st1_def delay_def)
  qed
  from Cons.IH [OF this] obtain st' where
    "tryFetch env req key rs st2 = (Inl FetchExhausted, st')"
    "cache st' = cache st2" "symbolOverrides st' = symbolOverrides st2"
    "dailyFileCache st' = dailyFileCache st2" "newsCache st' = newsCache st2"
    "cacheSaveScheduled st' = cacheSaveScheduled st2"
    "requests st' = requests st2 @ replicate (length rs) req"
    by blast
  then show ?case
    unfolding step by (simp add: st2_def st1_def delay_def replicate_app_Cons_same)
qed

lemma fetch_fail:
  assumes "isSymbolAllowed (symbolOverrides st) smb"
    and "noFreshEntry env st smb s e"
    and "\<forall>k < 3. attemptFails env (chartRequest smb s e) (length (requests st) + k)"
  shows "\<exists>st'. fetchChartFromYahoo env smb s e st = (Inl FetchExhausted, st') \<and>
     cache st' = cache st \<and> symbolOverrides st' = symbolOverrides st \<and>
     dailyFileCache st' = dailyFileCache st \<and> newsCache st' = newsCache st \<and>
     cacheSaveScheduled st' = cacheSaveScheduled st \<and>
     requests st' = requests st @ replicate 3 (chartRequest smb s e)"
proof -
  have "\<forall>k < length [0, 1, 2 :: nat]. attemptFails env (chartRequest smb s e) (length (requests st) + k)"
    using assms(3) by simp
  from tryFetch_fail [OF this, of "getCacheKey smb (formatYMD env s) (formatYMD env e)"]
  obtain st' where t: "tryFetch env (chartRequest smb s e)
        (getCacheKey smb (formatYMD env s) (formatYMD env e)) [0, 1, 2] st = (Inl FetchExhausted, st')"
    and inv: "cache st' = cache st" "symbolOverrides st' = symbolOverrides st"
      "dailyFileCache st' = dailyFileCache st" "newsCache st' = newsCache st"
      "cacheSaveScheduled st' = cacheSaveScheduled st"
    and reqs: "requests st' = requests st @ replicate (length [0, 1, 2 :: nat]) (chartRequest smb s e)"
    by blast
  have "fetchChartFromYahoo env smb s e st = tryFetch env (chartRequest smb s e)
        (getCacheKey smb (formatYMD env s) (formatYMD env e)) [0, 1, 2] st"
    using assms(1,2)
    by (simp add: fetchChartFromYahoo_def Let_def chartRequest_def noFreshEntry_def
        del: tryFetch.simps split: option.splits)
  with t have "fetchChartFromYahoo env smb s e st = (Inl FetchExhausted, st')" by simp
  moreover from reqs have "requests st' = requests st @ replicate 3 (chartRequest smb s e)"
    by (simp add: numeral_3_eq_3)
  ultimately show ?thesis using inv by blast
qed











lemma effective_allowed:
  "it \<in> set (getEffectiveItems ov) \<Longrightarrow> isSymbolAllowed ov (item_symbol it)"
  by (auto simp: isSymbolAllowed_def list_ex_iff)



lemma validate_2024_3: "validateYearMonth demoEnv ''2024'' ''3'' = Some (2024, 3)"
  by (simp add: validateYearMonth_def demoEnv_def)





lemma fetchLoop_all_fail:
  assumes down: "\<forall>req n. attemptFails env req n"
  shows "cache st = [] \<Longrightarrow> \<forall>it \<in> set its. isSymbolAllowed (symbolOverrides st) (item_symbol it) \<Longrightarrow>
     fetchLoop env s e its (r, f, st) = (r', f', st') \<Longrightarrow> length f' = length f + length its"
proof (induction its arbitrary: r f st)
  case Nil
  then show ?case by simp
next
  case (Cons it rest)
  have "noFreshEntry env st (item_symbol it) s e"
    using Cons.prems(1) by (simp add: noFreshEntry_def)
  moreover have "isSymbolAllowed (symbolOverrides st) (item_symbol it)"
    using Cons.prems(2) by simp
  moreover have "\<forall>k < 3. attemptFails env (chartRequest (item_symbol it) s e) (length (requests st) + k)"
    using down by simp
  ultimately obtain st1 where
    f: "fetchChartFromYahoo env (item_symbol it) s e st = (Inl FetchExhausted, st1)"
    and inv: "cache st1 = cache st" "symbolOverrides st1 = symbolOverrides st"
    using fetch_fail by blast
  from Cons.prems(3) f
  have run: "fetchLoop env s e rest (AList.update (item_id it) [] r,
        f @ [\<lparr>f_name = item_name it, f_reason = FetchExhausted\<rparr>], delay 500 st1) = (r', f', st')"
    by (simp add: fetchLoop_step del: fetchLoop.simps)
  have "cache (delay 500 st1) = []" using inv Cons.prems(1) by (simp add: delay_def)
  moreover have "\<forall>it \<in> set rest. isSymbolAllowed (symbolOverrides (delay 500 st1)) (item_symbol it)"
    using inv Cons.prems(2) by (simp add: delay_def)
  ultimately show ?case using Cons.IH [OF _ _ run] by simp
qed

lemma offline_down: "attemptFails offlineEnv req n"
  by (simp add: attemptFails_def offlineEnv_def demoEnv_def)

text \<open>
  Witness for C10: the empty server with the network down.  All 18 fetches fail, the snapshot
  of March 2024 is written with the empty series, and it is what the store holds afterwards.
\<close>

theorem getMonthlyData_writes_snapshot_witness:
  "getCachedMonthly emptyServer 2024 3 = None \<and>
   length (snd (fst (getMonthlyData offlineEnv 2024 3 False emptyServer))) = 18 \<and>
   map_of (fst (fst (getMonthlyData offlineEnv 2024 3 False emptyServer))) ''sp500'' = Some [] \<and>
   getCachedMonthly (snd (getMonthlyData offlineEnv 2024 3 False emptyServer)) 2024 3 =
     Some (2024, 3, fst (fst (getMonthlyData offlineEnv 2024 3 False emptyServer)))"
proof -
  obtain d failed st1 where run: "getMonthlyData offlineEnv 2024 3 False emptyServer = ((d, failed), st1)"
    by (metis prod.exhaust)
  have none: "getCachedMonthly emptyServer 2024 3 = None"
    by (simp add: getCachedMonthly_def emptyServer_def)
  let ?its = "getEffectiveItems (symbolOverrides emptyServer)"
  have len: "length ?its = 18" by (simp add: getEffectiveItems_def items_def)
  from getMonthlyData_miss [of False emptyServer 2024 3 offlineEnv] none run
  obtain raw st0 s e where "fetchAllHistorical offlineEnv ?its s e emptyServer = (raw, failed, st0)"
    by auto
  then have "fetchLoop offlineEnv s e ?its ([], [], emptyServer) = (raw, failed, st0)"
    by (simp add: fetchAllHistorical_def)
  from fetchLoop_all_fail [OF _ _ _ this] have "length failed = 18"
    using len by (simp add: offline_down effective_allowed) (simp add: emptyServer_def)
  moreover have "sp500 \<in> set ?its"
    by (simp add: emptyServer_def effective_plain items_def mkEffective_def sp500_def)
  ultimately show ?thesis
    using getMonthlyData_writes_snapshot [of emptyServer 2024 3 offlineEnv False offlineEnv] none run len
    by (auto simp: sp500_def)
qed


text \<open>
  Without a key for the news provider and with nothing in the news cache, both news
  operations return the empty list, send no request and leave the state as it is.
\<close>

lemma news_without_key:
  assumes "\<not> truthy (apiKey env)" "newsCache st = []"
  shows "fetchMarketNews env fromDate toDate skipCache st = ([], st)"
    and "fetchNewsForSymbol env smb fromDate toDate skipCache st = ([], st)"
  using assms
  by (simp_all add: fetchMarketNews_def fetchNewsForSymbol_def freshNews_def Let_def)

lemma scenario_stats_day2:
  "sellStatsOf scenario ''2024-03-05'' =
     Some \<lparr>st_curr = 95, st_monthFirst = 100, st_monthHigh = 100, st_consecDown = 1,
           st_cumulChange = Fin (- 5), st_fromHigh = Fin (- 5)\<rparr>"
proof -
  have closes: "List.map_filter close scenario = [100, 95, 88]"
    by (simp add: scenario_def mkRec_def List.map_filter_simps)
  have idx: "findIndex (\<lambda>d. date d = ''2024-03-05'') scenario = Some 1"
    by (simp add: scenario_def mkRec_def)
  have len: "length scenario = 3" by (simp add: scenario_def)
  show ?thesis
    unfolding sellStatsOf_def Let_def sortByDate_scenario closes idx
    by (simp add: len pctOf_def pct_eval)
qed

lemma marchCandidates_full:
  "candidateEvents (getEffectiveItems []) marchData =
     [\<lparr>c_date = ''2024-03-05'', c_item = item_name kospi, c_itemObj = kospi,
       c_change = Fin (- 5), c_type = Fall\<rparr>,
      \<lparr>c_date = ''2024-03-06'', c_item = item_name kospi, c_itemObj = kospi,
       c_change = Fin (- (8296104576735123 / 2 ^ 50)), c_type = Fall\<rparr>,
      \<lparr>c_date = ''2024-03-05'', c_item = item_name sp500, c_itemObj = sp500,
       c_change = Fin (- 5), c_type = Fall\<rparr>,
      \<lparr>c_date = ''2024-03-06'', c_item = item_name sp500, c_itemObj = sp500,
       c_change = Fin (- (8296104576735123 / 2 ^ 50)), c_type = Fall\<rparr>]"
  by (simp add: effective_plain items_def mkEffective_def
      candidateEvents_def orEmpty_def marchData_def scenario_def candidateOf_def mkRec_def Let_def
      kospi_def sp500_def pct_eval)

lemma march_advisories:
  "getSellTimingWarning scenario ''2024-03-05'' (Fin (- 5)) Fall = StopLoss"
  "getSellTimingWarning scenario ''2024-03-06'' (Fin (- (8296104576735123 / 2 ^ 50))) Fall
     = ImmediateSell"
  "getSellTimingWarning scenario ''2024-03-06'' (Fin (- (8296104576735123 / 1125899906842624))) Fall
     = ImmediateSell"
  by (simp_all add: getSellTimingWarning_def scenario_stats scenario_stats_day2 sellDecision_def)

lemma march_events:
  "eventsOf demoEnv marchServer marchData [] =
     [\<lparr>e_date = ''2024-03-05'', e_item = item_name sp500, e_change = Fin (- 5), e_type = Fall,
       newsHeadline = None, sellWarning = StopLoss\<rparr>,
      \<lparr>e_date = ''2024-03-06'', e_item = item_name sp500,
       e_change = Fin (- (8296104576735123 / 2 ^ 50)), e_type = Fall,
       newsHeadline = None, sellWarning = ImmediateSell\<rparr>]"
proof -
  have ov: "symbolOverrides marchServer = []"
    by (simp add: marchServer_def emptyServer_def)
  show ?thesis
    unfolding eventsOf_def ov marchCandidates_full
    by (simp add: eventOf_def kospi_def sp500_def truthy_def
        buildMarketNewsByDate_def getMarketHeadlineForDate_def marchData_def orEmpty_def
        march_advisories)
qed

text \<open>
  The event route for March 2024 on the server with the snapshot, with no key for the news
  provider: the answer is the success object, and its events are the two falls of \<open>sp500\<close>,
  without headline.
\<close>

theorem events_without_key_nonempty:
  "apiKey demoEnv = None \<and> newsCache marchServer = [] \<and>
   apiEvents demoEnv ''2024'' ''3'' None marchServer =
     (EventsOk 2024 3
        [(''2024-03-05'',
          [\<lparr>e_date = ''2024-03-05'', e_item = item_name sp500, e_change = Fin (- 5),
            e_type = Fall, newsHeadline = None, sellWarning = StopLoss\<rparr>]),
         (''2024-03-06'',
          [\<lparr>e_date = ''2024-03-06'', e_item = item_name sp500,
            e_change = Fin (- (8296104576735123 / 2 ^ 50)),
            e_type = Fall, newsHeadline = None, sellWarning = ImmediateSell\<rparr>])]
        [],
      marchServer)"
proof -
  have key: "apiKey demoEnv = None" by (simp add: demoEnv_def)
  have nc: "newsCache marchServer = []" by (simp add: marchServer_def emptyServer_def)
  have hit: "getMonthlyData demoEnv 2024 3 False marchServer = ((marchData, []), marchServer)"
    by (rule getMonthlyData_hit [OF marchServer_cached])
  have news: "fetchMarketNews demoEnv a b False marchServer = ([], marchServer)" for a b
    by (rule news_without_key(1)) (simp_all add: key nc truthy_def)
  have "apiEvents demoEnv ''2024'' ''3'' None marchServer =
      (EventsOk 2024 3 (groupByDate (eventsOf demoEnv marchServer marchData [])) [], marchServer)"
    by (simp add: apiEvents_def validate_2024_3 hit news getMonthRange_def Let_def)
  then show ?thesis
    using key nc by (simp add: march_events groupByDate_def orEmpty_def Let_def sp500_def)
qed

text \<open>
  A parseable answer that carries no series is not a failure: the fetch returns the empty
  series, and the batch records nothing for the instrument.
\<close>

lemma no_series_is_success:
  assumes "isSymbolAllowed (symbolOverrides st) smb"
    and "noFreshEntry env st smb s e"
    and "upstream env (chartRequest smb s e) (length (requests st)) = (Response 200 body, lat)"
    and "settle (Response 200 body) = Inr body"
    and "jsonParse env body = Some json"
    and "parseChart env json = None"
  shows "fst (fetchChartFromYahoo env smb s e st) = Inr []"
  using assms
  by (auto simp: fetchChartFromYahoo_def Let_def chartRequest_def noFreshEntry_def httpGet_def
      orEmpty_def simp del: settle.simps split: option.splits)

lemma newsServer_cached: "getCachedMonthly newsServer 2024 3 = Some (2024, 3, marchData)"
  by (simp add: getCachedMonthly_def key_2024_03 newsServer_def marchServer_def emptyServer_def)

lemma newsServer_news:
  "fetchMarketNews demoEnv ''2024-03-01'' ''2024-03-31'' False newsServer =
     ([\<lparr>n_date = ''2024-03-05'', n_headline = ''Stocks slide''\<rparr>], newsServer)"
  by (simp add: fetchMarketNews_def freshNews_def newsServer_def marchServer_def emptyServer_def)

lemma march_range:
  "formatYMD demoEnv (fst (getMonthRange demoEnv 2024 3)) = ''2024-03-01''"
  "formatYMD demoEnv (snd (getMonthRange demoEnv 2024 3)) = ''2024-03-31''"
  by (simp_all add: getMonthRange_def formatYMD_def demoEnv_def demoTime_def demoFields_def
      showInt_def showNat.simps padStart2_def digitChar_def)

lemma slide_headline:
  "getMarketHeadlineForDate march [(''2024-03-05'', [''Stocks slide''])] ''2024-03-05''
     = Some ''Stocks slide''"
  "getMarketHeadlineForDate march [(''2024-03-05'', [''Stocks slide''])] ''2024-03-06''
     = Some ''Stocks slide''"
  by (simp_all add: getMarketHeadlineForDate_def dayDiff_def march_def)

text \<open>
  Witness for C4: the event route for March 2024 on the server whose snapshot has the same
  series, with two qualifying falls, for \<open>kospi\<close> (no news symbol) and for \<open>sp500\<close> (news
  symbol \<open>SPY\<close>).  Of the four candidates only the two of \<open>sp500\<close> are events.
\<close>

theorem events_news_gate_witness:
  "validateYearMonth demoEnv ''2024'' ''3'' = Some (2024, 3) \<and>
   getMonthlyData demoEnv 2024 3 (None = Some ''1'') newsServer = ((marchData, []), newsServer) \<and>
   map (\<lambda>c. (item_id (c_itemObj c), newsSymbol (c_itemObj c), c_date c))
       (candidateEvents (getEffectiveItems (symbolOverrides newsServer)) marchData) =
     [(''kospi'', None, ''2024-03-05''), (''kospi'', None, ''2024-03-06''),
      (''sp500'', Some ''SPY'', ''2024-03-05''), (''sp500'', Some ''SPY'', ''2024-03-06'')] \<and>
   (\<exists>byDate. apiEvents demoEnv ''2024'' ''3'' None newsServer = (EventsOk 2024 3 byDate [], newsServer) \<and>
      orEmpty (map_of byDate ''2024-03-05'') =
        [\<lparr>e_date = ''2024-03-05'', e_item = item_name sp500, e_change = Fin (- 5),
          e_type = Fall, newsHeadline = Some ''Stocks slide'', sellWarning = StopLoss\<rparr>] \<and>
      orEmpty (map_of byDate ''2024-03-06'') =
        [\<lparr>e_date = ''2024-03-06'', e_item = item_name sp500,
          e_change = Fin (- (8296104576735123 / 2 ^ 50)),
          e_type = Fall, newsHeadline = Some ''Stocks slide'', sellWarning = ImmediateSell\<rparr>] \<and>
      orEmpty (map_of byDate ''2024-03-04'') = [])"
proof -
  have ov: "symbolOverrides newsServer = []"
    by (simp add: newsServer_def marchServer_def emptyServer_def)
  have hit: "getMonthlyData demoEnv 2024 3 (None = Some ''1'') newsServer
      = ((marchData, []), newsServer)"
    using getMonthlyData_hit [OF newsServer_cached, of demoEnv] by simp
  have news: "fetchMarketNews demoEnv (formatYMD demoEnv (fst (getMonthRange demoEnv 2024 3)))
      (formatYMD demoEnv (snd (getMonthRange demoEnv 2024 3))) (None = Some ''1'') newsServer
      = ([\<lparr>n_date = ''2024-03-05'', n_headline = ''Stocks slide''\<rparr>], newsServer)"
    unfolding march_range using newsServer_news by simp
  have byDate: "buildMarketNewsByDate [\<lparr>n_date = ''2024-03-05'', n_headline = ''Stocks slide''\<rparr>]
      = [(''2024-03-05'', [''Stocks slide''])]"
    by (simp add: buildMarketNewsByDate_def orEmpty_def Let_def)
  from events_news_gate [OF validate_2024_3 hit news]
  obtain byDate where
    route: "apiEvents demoEnv ''2024'' ''3'' None newsServer = (EventsOk 2024 3 byDate [], newsServer)"
    and evs: "\<forall>d. orEmpty (map_of byDate d) =
          map (eventOf (parseDate demoEnv)
                 (buildMarketNewsByDate [\<lparr>n_date = ''2024-03-05'', n_headline = ''Stocks slide''\<rparr>])
                 marchData)
            (filter (\<lambda>c. c_date c = d \<and> newsSymbol (c_itemObj c) \<noteq> None)
               (candidateEvents (getEffectiveItems (symbolOverrides newsServer)) marchData))"
    by (elim exE conjE)
  have pd: "parseDate demoEnv = march"
    by (simp add: demoEnv_def)
  have e5: "orEmpty (map_of byDate ''2024-03-05'') =
        [\<lparr>e_date = ''2024-03-05'', e_item = item_name sp500, e_change = Fin (- 5),
          e_type = Fall, newsHeadline = Some ''Stocks slide'', sellWarning = StopLoss\<rparr>]"
    unfolding evs [rule_format] byDate ov marchCandidates_full pd
    by (simp add: eventOf_def kospi_def sp500_def marchData_def orEmpty_def
        slide_headline march_advisories)
  have e6: "orEmpty (map_of byDate ''2024-03-06'') =
        [\<lparr>e_date = ''2024-03-06'', e_item = item_name sp500,
          e_change = Fin (- (8296104576735123 / 2 ^ 50)),
          e_type = Fall, newsHeadline = Some ''Stocks slide'', sellWarning = ImmediateSell\<rparr>]"
    unfolding evs [rule_format] byDate ov marchCandidates_full pd
    by (simp add: eventOf_def kospi_def sp500_def marchData_def orEmpty_def
        slide_headline march_advisories)
  have e4: "orEmpty (map_of byDate ''2024-03-04'') = []"
    unfolding evs [rule_format] byDate ov marchCandidates_full pd
    by simp
  have cands: "map (\<lambda>c. (item_id (c_itemObj c), newsSymbol (c_itemObj c), c_date c))
       (candidateEvents (getEffectiveItems (symbolOverrides newsServer)) marchData) =
     [(''kospi'', None, ''2024-03-05''), (''kospi'', None, ''2024-03-06''),
      (''sp500'', Some ''SPY'', ''2024-03-05''), (''sp500'', Some ''SPY'', ''2024-03-06'')]"
    unfolding ov marchCandidates_full by (simp add: kospi_def sp500_def)
  from route e5 e6 e4 have "\<exists>byDate.
      apiEvents demoEnv ''2024'' ''3'' None newsServer = (EventsOk 2024 3 byDate [], newsServer) \<and>
      orEmpty (map_of byDate ''2024-03-05'') =
        [\<lparr>e_date = ''2024-03-05'', e_item = item_name sp500, e_change = Fin (- 5),
          e_type = Fall, newsHeadline = Some ''Stocks slide'', sellWarning = StopLoss\<rparr>] \<and>
      orEmpty (map_of byDate ''2024-03-06'') =
        [\<lparr>e_date = ''2024-03-06'', e_item = item_name sp500,
          e_change = Fin (- (8296104576735123 / 2 ^ 50)),
          e_type = Fall, newsHeadline = Some ''Stocks slide'', sellWarning = ImmediateSell\<rparr>] \<and>
      orEmpty (map_of byDate ''2024-03-04'') = []"
    by blast
  with validate_2024_3 hit cands show ?thesis
    by blast
qed

end
